theory Spec2Isabelle
  imports Main "HOL-Library.Sublist"
begin

section \<open>Data model\<close>

text \<open>
  The exceptions the concatenation layer raises, as values.  \<open>IndexError\<close>,
  \<open>KeyError\<close>, \<open>AttributeError\<close> and \<open>StopIteration\<close> are the interpreter's
  own: indexing past the end of a sequence, a domain name the mesh does not hold, an
  attribute read on an object that has no such attribute, \<open>next\<close> on an exhausted
  iterator.
\<close>

datatype error =
  TypeError | DomainError | ValueError | NotImplementedError
  | IndexError | KeyError | AttributeError | StopIteration

text \<open>
  A domain descriptor: the primary domain names and the three auxiliary levels.  The
  expression-node base class keeps all four keys in every descriptor, in this order.
\<close>

record domain_descriptor =
  primary :: "string list"
  secondary :: "string list"
  tertiary :: "string list"
  quaternary :: "string list"

text \<open>
  The node classes the source tells apart with \<open>isinstance\<close>, each with the
  attributes this layer reads from it or stores in it.  \<open>Symbol_class\<close> is any
  other node class,
  \<open>Broadcast_class\<close> a broadcast that is neither primary nor full, and
  \<open>Not_Symbol\<close> a Python object that is no expression node.  \<open>scale\<close>,
  \<open>reference\<close> and \<open>bounds\<close> are only ever compared for equality, so they are
  integers here; \<open>y_slices\<close> and \<open>evaluation_array\<close> are what a state-vector
  reference exposes.
\<close>

datatype symbol_class =
  Symbol_class
  | Variable_class (scale: int) (reference: int) (bounds: "int \<times> int") (raw_print_name: string)
  | StateVector_class (y_slices: "(nat \<times> nat) list") (evaluation_array: "bool list")
  | PrimaryBroadcast_class
  | FullBroadcast_class
  | Broadcast_class
  | Concatenation_class
  | ConcatenationVariable_class (scale: int) (reference: int) (bounds: "int \<times> int")
      (print_name: string)
  | NumpyConcatenation_class
  | DomainConcatenation_class
  | SparseStack_class (sparse: bool)
  | Index_class (index_slice: "nat \<times> nat")
  | Not_Symbol

text \<open>An expression node: class, name, owned children, domains.\<close>

datatype symbol = Symbol
  (cls: symbol_class)
  (name: string)
  (children: "symbol list")
  (domains: domain_descriptor)

definition domain :: "symbol \<Rightarrow> string list" where
  "domain s = primary (domains s)"

definition isinstance_Symbol :: "symbol \<Rightarrow> bool" where
  "isinstance_Symbol s = (cls s \<noteq> Not_Symbol)"

definition isinstance_Variable :: "symbol \<Rightarrow> bool" where
  "isinstance_Variable s = is_Variable_class (cls s)"

definition isinstance_StateVector :: "symbol \<Rightarrow> bool" where
  "isinstance_StateVector s = is_StateVector_class (cls s)"

definition isinstance_PrimaryBroadcast :: "symbol \<Rightarrow> bool" where
  "isinstance_PrimaryBroadcast s = (cls s = PrimaryBroadcast_class)"

definition isinstance_Broadcast :: "symbol \<Rightarrow> bool" where
  "isinstance_Broadcast s =
     (cls s = PrimaryBroadcast_class \<or> cls s = FullBroadcast_class \<or> cls s = Broadcast_class)"

definition isinstance_NumpyConcatenation :: "symbol \<Rightarrow> bool" where
  "isinstance_NumpyConcatenation s = (cls s = NumpyConcatenation_class)"

section \<open>The domain validator\<close>

text \<open>
  \<open>Concatenation.get_children_domains\<close>, first loop: the running primary domain,
  child by child.
\<close>

fun combine_domains :: "string list \<Rightarrow> symbol list \<Rightarrow> error + string list" where
  "combine_domains acc [] = Inr acc"
| "combine_domains acc (child # rest) =
     (if \<not> isinstance_Symbol child then Inl TypeError
      else if domain child = [] then Inl DomainError
      else if set acc \<inter> set (domain child) = {} then combine_domains (acc @ domain child) rest
      else Inl DomainError)"

text \<open>
  Second loop, for one auxiliary level of the first child's descriptor: nothing is
  checked when that level is empty in the first child; otherwise every later child must
  hold the same sequence or the empty one.
\<close>

definition level_compatible ::
  "(domain_descriptor \<Rightarrow> string list) \<Rightarrow> domain_descriptor \<Rightarrow> symbol list \<Rightarrow> bool" where
  "level_compatible level auxiliary_domains rest =
     (level auxiliary_domains = [] \<or>
      list_all (\<lambda>child. level (domains child) = level auxiliary_domains \<or> level (domains child) = [])
        rest)"

definition get_children_domains :: "symbol list \<Rightarrow> error + domain_descriptor" where
  "get_children_domains cs =
     (case combine_domains [] cs of
        Inl e \<Rightarrow> Inl e
      | Inr merged \<Rightarrow>
          (case cs of
             [] \<Rightarrow> Inl IndexError
           | first # rest \<Rightarrow>
               (let auxiliary_domains = domains first in
                if level_compatible secondary auxiliary_domains rest
                   \<and> level_compatible tertiary auxiliary_domains rest
                   \<and> level_compatible quaternary auxiliary_domains rest
                then Inr (auxiliary_domains\<lparr>primary := merged\<rparr>)
                else Inl DomainError)))"


section \<open>Generic concatenation\<close>

text \<open>
  \<open>Concatenation.__init__\<close>.  \<open>self_cls\<close> is \<open>type(self)\<close>: the guard against
  all-variable children holds for the base class only.  The base constructor of every
  node stores name, children and domains.
\<close>

definition Concatenation_init ::
  "symbol_class \<Rightarrow> symbol list \<Rightarrow> string option \<Rightarrow> bool \<Rightarrow> error + symbol" where
  "Concatenation_init self_cls cs name_arg check_domain =
     (if list_all isinstance_Variable cs \<and> self_cls = Concatenation_class then Inl TypeError
      else
        (case (if check_domain then get_children_domains cs
               else Inr \<lparr>primary = [], secondary = [], tertiary = [], quaternary = []\<rparr>) of
           Inl e \<Rightarrow> Inl e
         | Inr ds \<Rightarrow>
             Inr (Symbol self_cls (case name_arg of None \<Rightarrow> ''concatenation'' | Some n \<Rightarrow> n)
                    cs ds)))"

section \<open>Domain-aware concatenation\<close>

text \<open>
  The mesh is a collaborator of this layer, read only through \<open>mesh[dom].npts\<close>:
  \<open>npts\<close> is that lookup for one domain name, \<open>npts_combined\<close> the same lookup
  for the name sequence of an auxiliary level.  \<open>None\<close> is a name the mesh does not
  hold.
\<close>

record mesh =
  npts :: "string \<Rightarrow> nat option"
  npts_combined :: "string list \<Rightarrow> nat option"

text \<open>A slice is \<open>(start, stop)\<close>, half open.\<close>

type_synonym slice = "nat \<times> nat"

text \<open>
  A slice table is the \<open>defaultdict(list)\<close> of \<open>create_slices\<close>: domain name to
  slice list, keys in insertion order.
\<close>

type_synonym slices = "(string \<times> slice list) list"

fun getitem_default :: "slices \<Rightarrow> string \<Rightarrow> slice list" where
  "getitem_default [] k = []"
| "getitem_default ((k', v) # rest) k = (if k' = k then v else getitem_default rest k)"

fun append_slice :: "string \<Rightarrow> slice \<Rightarrow> slices \<Rightarrow> slices" where
  "append_slice k s [] = [(k, [s])]"
| "append_slice k s ((k', v) # rest) =
     (if k' = k then (k', v @ [s]) # rest else (k', v) # append_slice k s rest)"

fun auxiliary_domain_repeats_loop :: "mesh \<Rightarrow> nat \<Rightarrow> string list list \<Rightarrow> error + nat" where
  "auxiliary_domain_repeats_loop m mesh_pts [] = Inr mesh_pts"
| "auxiliary_domain_repeats_loop m mesh_pts (d # ds) =
     (if d \<noteq> [] then
        (case npts_combined m d of
           None \<Rightarrow> Inl KeyError
         | Some n \<Rightarrow> auxiliary_domain_repeats_loop m (mesh_pts * n) ds)
      else auxiliary_domain_repeats_loop m mesh_pts ds)"

definition get_auxiliary_domain_repeats :: "mesh \<Rightarrow> domain_descriptor \<Rightarrow> error + nat" where
  "get_auxiliary_domain_repeats m auxiliary_domains =
     auxiliary_domain_repeats_loop m 1
       [secondary auxiliary_domains, tertiary auxiliary_domains, quaternary auxiliary_domains]"

text \<open>The loops of \<open>create_slices\<close>; the state is \<open>(slices, start, end)\<close>.\<close>

fun create_slices_domains ::
  "mesh \<Rightarrow> string list \<Rightarrow> slices \<times> nat \<times> nat \<Rightarrow> error + slices \<times> nat \<times> nat" where
  "create_slices_domains m [] st = Inr st"
| "create_slices_domains m (d # ds) (sl, start, end) =
     (case npts m d of
        None \<Rightarrow> Inl KeyError
      | Some n \<Rightarrow> create_slices_domains m ds (append_slice d (start, end + n) sl, end + n, end + n))"

fun create_slices_repeats ::
  "mesh \<Rightarrow> nat \<Rightarrow> string list \<Rightarrow> slices \<times> nat \<times> nat \<Rightarrow> error + slices \<times> nat \<times> nat" where
  "create_slices_repeats m 0 ds st = Inr st"
| "create_slices_repeats m (Suc i) ds st =
     (case create_slices_domains m ds st of
        Inl e \<Rightarrow> Inl e
      | Inr st' \<Rightarrow> create_slices_repeats m i ds st')"

text \<open>
  \<open>create_slices(self, node)\<close>: the repeat count is read from the domains of
  \<open>self\<close> and compared with the stored one; the slices are laid out over the primary
  domain of \<open>node\<close>.
\<close>

definition create_slices ::
  "mesh \<Rightarrow> domain_descriptor \<Rightarrow> nat \<Rightarrow> string list \<Rightarrow> error + slices" where
  "create_slices m self_domains secondary_dimensions_npts node_domain =
     (case get_auxiliary_domain_repeats m self_domains of
        Inl e \<Rightarrow> Inl e
      | Inr second_pts \<Rightarrow>
          if second_pts \<noteq> secondary_dimensions_npts then Inl ValueError
          else
            (case create_slices_repeats m second_pts node_domain ([], 0, 0) of
               Inl e \<Rightarrow> Inl e
             | Inr (sl, start, end) \<Rightarrow> Inr sl))"

fun create_children_slices ::
  "mesh \<Rightarrow> domain_descriptor \<Rightarrow> nat \<Rightarrow> symbol list \<Rightarrow> error + slices list" where
  "create_children_slices m self_domains n [] = Inr []"
| "create_children_slices m self_domains n (child # rest) =
     (case create_slices m self_domains n (domain child) of
        Inl e \<Rightarrow> Inl e
      | Inr s \<Rightarrow>
          (case create_children_slices m self_domains n rest of
             Inl e \<Rightarrow> Inl e
           | Inr ss \<Rightarrow> Inr (s # ss)))"

text \<open>\<open>self._slices[self.domain[-1]][-1].stop\<close>, with both index errors.\<close>

definition last_stop :: "slices \<Rightarrow> string list \<Rightarrow> error + nat" where
  "last_stop sl dom_names =
     (if dom_names = [] then Inl IndexError
      else if getitem_default sl (last dom_names) = [] then Inl IndexError
      else Inr (snd (last (getitem_default sl (last dom_names)))))"

record domain_concatenation =
  node :: symbol
  full_mesh :: mesh
  secondary_dimensions_npts :: nat
  slices_of :: slices
  size_of :: nat
  children_slices :: "slices list"

text \<open>
  \<open>DomainConcatenation.__init__\<close>.  With \<open>copy_this\<close> the mesh, the slice tables
  and the size are taken from the other instance.
\<close>

definition DomainConcatenation_init ::
  "symbol list \<Rightarrow> mesh \<Rightarrow> domain_concatenation option \<Rightarrow> error + domain_concatenation" where
  "DomainConcatenation_init cs m copy_this =
     (case Concatenation_init DomainConcatenation_class cs (Some ''domain_concatenation'') True of
        Inl e \<Rightarrow> Inl e
      | Inr self \<Rightarrow>
          (case copy_this of
             Some other \<Rightarrow>
               Inr \<lparr>node = self, full_mesh = full_mesh other,
                    secondary_dimensions_npts = secondary_dimensions_npts other,
                    slices_of = slices_of other, size_of = size_of other,
                    children_slices = children_slices other\<rparr>
           | None \<Rightarrow>
               (case get_auxiliary_domain_repeats m (domains self) of
                  Inl e \<Rightarrow> Inl e
                | Inr n \<Rightarrow>
                    (case create_slices m (domains self) n (domain self) of
                       Inl e \<Rightarrow> Inl e
                     | Inr sl \<Rightarrow>
                         (case last_stop sl (domain self) of
                            Inl e \<Rightarrow> Inl e
                          | Inr sz \<Rightarrow>
                              (case create_children_slices m (domains self) n (children self) of
                                 Inl e \<Rightarrow> Inl e
                               | Inr css \<Rightarrow>
                                   Inr \<lparr>node = self, full_mesh = m,
                                        secondary_dimensions_npts = n,
                                        slices_of = sl, size_of = sz,
                                        children_slices = css\<rparr>))))))"


subsection \<open>Evaluation\<close>

text \<open>
  Column vectors are lists.  \<open>read_slice\<close> is \<open>v[start:stop]\<close>, which stops at the end
  of \<open>v\<close>.  \<open>assign_slice\<close> is \<open>vector[start:stop] = src\<close>: the source must have the
  length of the target range, or length one (it is then broadcast); anything else raises.
\<close>

definition read_slice :: "'a list \<Rightarrow> slice \<Rightarrow> 'a list" where
  "read_slice v s = take (snd s - fst s) (drop (fst s) v)"







subsection \<open>Jacobian\<close>







section \<open>Variable-aware concatenation\<close>

text \<open>\<open>substrings(s)\<close>: every \<open>s[i : j + 1]\<close> with \<open>i \<le> j < len(s)\<close>, in order.\<close>

definition substrings :: "string \<Rightarrow> string list" where
  "substrings s =
     concat (map (\<lambda>i. map (\<lambda>j. take (j + 1 - i) (drop i s)) [i..<length s]) [0..<length s])"

text \<open>
  \<open>str.lstrip()\<close> and \<open>str.rstrip()\<close> remove white space: the blank and the
  control characters 9 to 13 and 28 to 31.
\<close>

definition is_whitespace :: "char \<Rightarrow> bool" where
  "is_whitespace c =
     (let n = (of_char c :: nat) in n = 32 \<or> (9 \<le> n \<and> n \<le> 13) \<or> (28 \<le> n \<and> n \<le> 31))"

definition lstrip :: "string \<Rightarrow> string" where
  "lstrip s = dropWhile is_whitespace s"

definition rstrip :: "string \<Rightarrow> string" where
  "rstrip s = rev (dropWhile is_whitespace (rev s))"

text \<open>\<open>max(xs, key=len)\<close>: the first element of greatest length, in iteration order.\<close>

fun max_len :: "string \<Rightarrow> string list \<Rightarrow> string" where
  "max_len best [] = best"
| "max_len best (x # xs) = (if length best < length x then max_len x xs else max_len best xs)"

text \<open>
  \<open>intersect(s1, s2)\<close>.  The common substrings are a Python set, whose iteration
  order is the interpreter's: \<open>iteration\<close> lists the elements of the set in that
  order.
\<close>

definition intersect :: "(string list \<Rightarrow> string list) \<Rightarrow> string \<Rightarrow> string \<Rightarrow> string" where
  "intersect iteration s1 s2 =
     (let all_intersects = filter (\<lambda>x. x \<in> set (substrings s2)) (remdups (substrings s1))
      in if length all_intersects = 0 then []
         else
           (case iteration all_intersects of
              [] \<Rightarrow> []
            | x # xs \<Rightarrow> rstrip (lstrip (max_len x xs))))"

text \<open>\<open>c.capitalize()\<close> for a one-character string: a lower-case letter is raised.\<close>

definition capitalize :: "char \<Rightarrow> char" where
  "capitalize c =
     (let n = (of_char c :: nat) in if 97 \<le> n \<and> n \<le> 122 then char_of (n - 32) else c)"

text \<open>
  The name of a \<open>ConcatenationVariable\<close>: the running intersection of the children's
  names, \<open>None\<close> when it is empty, its first character capitalised when it is longer
  than one character.  A missing second child is an \<open>IndexError\<close>.
\<close>

definition intersect_all ::
  "(string list \<Rightarrow> string list) \<Rightarrow> string list \<Rightarrow> error + string" where
  "intersect_all iteration names =
     (case names of
        [] \<Rightarrow> Inl IndexError
      | [n0] \<Rightarrow> Inl IndexError
      | n0 # n1 # rest \<Rightarrow>
          Inr (fold (\<lambda>child_name nm. intersect iteration nm child_name) rest
                 (intersect iteration n0 n1)))"

definition merged_name :: "string \<Rightarrow> string option" where
  "merged_name nm =
     (if length nm = 0 then None
      else if length nm > 1 then Some (capitalize (hd nm) # tl nm)
      else Some nm)"

text \<open>
  \<open>ConcatenationVariable.__init__\<close>.  \<open>scale\<close>, \<open>reference\<close>, \<open>bounds\<close> and
  the raw print name are attributes of variables: a child of another class has none of
  them.
\<close>

definition ConcatenationVariable ::
  "(string list \<Rightarrow> string list) \<Rightarrow> symbol list \<Rightarrow> error + symbol" where
  "ConcatenationVariable iteration cs =
     (if \<exists>child\<in>set (take 2 cs). \<not> isinstance_Symbol child then Inl AttributeError
      else
        (case intersect_all iteration (map name cs) of
           Inl e \<Rightarrow> Inl e
         | Inr nm \<Rightarrow>
             if \<not> list_all isinstance_Variable cs then Inl AttributeError
             else if \<not> list_all (\<lambda>child. scale (cls child) = scale (cls (hd cs))) cs
               then Inl ValueError
             else if \<not> list_all (\<lambda>child. reference (cls child) = reference (cls (hd cs))) cs
               then Inl ValueError
             else if \<not> (list_all (\<lambda>child. fst (bounds (cls child)) = fst (bounds (cls (hd cs)))) cs
                       \<and> list_all (\<lambda>child. snd (bounds (cls child)) = snd (bounds (cls (hd cs)))) cs)
               then Inl ValueError
             else
               (case intersect_all iteration (map (\<lambda>child. raw_print_name (cls child)) cs) of
                  Inl e \<Rightarrow> Inl e
                | Inr pn \<Rightarrow>
                    Concatenation_init
                      (ConcatenationVariable_class (scale (cls (hd cs))) (reference (cls (hd cs)))
                         (bounds (cls (hd cs)))
                         (if pn \<noteq> [] \<and> last pn = CHR ''_'' then butlast pn else pn))
                      cs (merged_name nm) True)))"

section \<open>Simplification\<close>

text \<open>
  The collaborators of the simplifying constructors, none of them part of this layer:
  the iteration order of a set of strings, the two broadcast constructors, whether a
  node evaluates to a number, the product \<open>child * Vector([1])\<close>, constant folding of
  a node, and whether a node's shape-only evaluation is sparse.
\<close>

record collaborators =
  set_iteration :: "string list \<Rightarrow> string list"
  PrimaryBroadcast :: "symbol \<Rightarrow> string list \<Rightarrow> error + symbol"
  FullBroadcast :: "symbol \<Rightarrow> domain_descriptor \<Rightarrow> error + symbol"
  evaluates_to_number :: "symbol \<Rightarrow> bool"
  times_Vector_1 :: "symbol \<Rightarrow> symbol"
  simplify_if_constant :: "symbol \<Rightarrow> symbol"

text \<open>\<open>filter(lambda x: x is not None, children)\<close>.\<close>

fun drop_None :: "symbol option list \<Rightarrow> symbol list" where
  "drop_None [] = []"
| "drop_None (None # rest) = drop_None rest"
| "drop_None (Some c # rest) = c # drop_None rest"

text \<open>\<open>b.child\<close> of a broadcast: its one child.\<close>

definition child_of :: "symbol \<Rightarrow> symbol option" where
  "child_of b = (case children b of [] \<Rightarrow> None | c # rest \<Rightarrow> Some c)"

definition simplified_concatenation :: "collaborators \<Rightarrow> symbol option list \<Rightarrow> error + symbol" where
  "simplified_concatenation env args =
     (let cs = drop_None args in
      if length cs = 0 then Inl ValueError
      else if length cs = 1 then Inr (hd cs)
      else if list_all isinstance_Variable cs then ConcatenationVariable (set_iteration env) cs
      else
        (case Concatenation_init Concatenation_class cs None True of
           Inl e \<Rightarrow> Inl e
         | Inr conc \<Rightarrow>
             if list_all (\<lambda>child. isinstance_Broadcast child \<and> child_of child = child_of (hd cs)) cs
             then
               (case child_of (hd cs) of
                  None \<Rightarrow> Inl IndexError
                | Some unique_child \<Rightarrow>
                    if isinstance_PrimaryBroadcast (hd cs)
                    then PrimaryBroadcast env unique_child (domain conc)
                    else FullBroadcast env unique_child (domains conc))
             else Inr conc))"

definition concatenation :: "collaborators \<Rightarrow> symbol option list \<Rightarrow> error + symbol" where
  "concatenation env args = simplified_concatenation env args"

text \<open>\<open>NumpyConcatenation.__init__\<close>: children that evaluate to a number become vectors.\<close>

definition NumpyConcatenation :: "collaborators \<Rightarrow> symbol list \<Rightarrow> error + symbol" where
  "NumpyConcatenation env cs =
     (if \<exists>child\<in>set cs. \<not> isinstance_Symbol child then Inl AttributeError
      else
        Concatenation_init NumpyConcatenation_class
          (map (\<lambda>child. if evaluates_to_number env child then times_Vector_1 env child else child) cs)
          (Some ''numpy_concatenation'') False)"

definition simplified_numpy_concatenation :: "collaborators \<Rightarrow> symbol list \<Rightarrow> error + symbol" where
  "simplified_numpy_concatenation env cs =
     (let new_children =
            concat (map (\<lambda>child. if isinstance_NumpyConcatenation child then children child
                                 else [child]) cs)
      in case NumpyConcatenation env new_children of
           Inl e \<Rightarrow> Inl e
         | Inr n \<Rightarrow> Inr (simplify_if_constant env n))"

definition numpy_concatenation :: "collaborators \<Rightarrow> symbol list \<Rightarrow> error + symbol" where
  "numpy_concatenation env cs = simplified_numpy_concatenation env cs"

text \<open>
  Modelled from the spec: the constructor of the state-vector reference, a collaborator
  of this layer.  It reads the contiguous rows of its slice, and its evaluation array is
  the indicator of that slice over the state vector up to the slice's stop.
\<close>

definition StateVector :: "slice \<Rightarrow> domain_descriptor \<Rightarrow> symbol" where
  "StateVector s ds =
     Symbol (StateVector_class [s] (replicate (fst s) False @ replicate (snd s - fst s) True))
       ''y'' [] ds"

text \<open>
  The indicator arrays of \<open>simplified_domain_concatenation\<close>: each child's evaluation
  array padded with zeros to the length of the last child's (a negative pad length
  raises), and their elementwise sum.  The arrays are the values of a dictionary keyed by
  child, so a repeated child counts once.
\<close>

definition padded_eval_array :: "nat \<Rightarrow> symbol \<Rightarrow> nat list" where
  "padded_eval_array longest child =
     map (\<lambda>b. if b then 1 else 0) (evaluation_array (cls child))
       @ replicate (longest - length (evaluation_array (cls child))) 0"

definition sum_arrays :: "nat \<Rightarrow> nat list list \<Rightarrow> nat list" where
  "sum_arrays longest arrays = fold (\<lambda>a acc. map2 (+) acc a) arrays (replicate longest 0)"

text \<open>
  \<open>simplified_domain_concatenation\<close>; \<open>simplify\<close> is constant folding of the
  domain-aware node, a collaborator.
\<close>

definition simplified_domain_concatenation ::
  "(domain_concatenation \<Rightarrow> symbol) \<Rightarrow> symbol list \<Rightarrow> mesh \<Rightarrow> domain_concatenation option
     \<Rightarrow> error + symbol" where
  "simplified_domain_concatenation simplify cs m copy_this =
     (case DomainConcatenation_init cs m copy_this of
        Inl e \<Rightarrow> Inl e
      | Inr conc \<Rightarrow>
          if list_all isinstance_StateVector cs then
            (if cs = [] then Inl IndexError
             else
               (let longest_eval_array = length (evaluation_array (cls (last cs))) in
                if \<exists>child\<in>set cs. longest_eval_array < length (evaluation_array (cls child))
                then Inl ValueError
                else if y_slices (cls (hd cs)) = [] \<or> y_slices (cls (last cs)) = []
                then Inl IndexError
                else
                  (let first_start = fst (hd (y_slices (cls (hd cs))));
                       last_stop = snd (last (y_slices (cls (last cs))));
                       total = sum_arrays longest_eval_array
                                 (map (padded_eval_array longest_eval_array) (remdups cs))
                   in if list_all (\<lambda>x. x = 1) (read_slice total (first_start, last_stop))
                      then Inr (StateVector (first_start, last_stop) (domains (node conc)))
                      else Inr (simplify conc))))
          else Inr (simplify conc))"

definition domain_concatenation ::
  "(domain_concatenation \<Rightarrow> symbol) \<Rightarrow> symbol list \<Rightarrow> mesh \<Rightarrow> error + symbol" where
  "domain_concatenation simplify cs m = simplified_domain_concatenation simplify cs m None"

section \<open>Vocabulary of the properties\<close>

text \<open>
  The point count the mesh gives a domain name (zero for a name it does not hold), the
  index range of a slice, and three properties of a slice table read through
  \<open>getitem_default\<close>: every stop is at most \<open>e\<close>; the ranges cover exactly
  \<open>[0, e)\<close>; the ranges of two different entries are disjoint.
\<close>

definition npts_of :: "mesh \<Rightarrow> string \<Rightarrow> nat" where
  "npts_of m d = (case npts m d of None \<Rightarrow> 0 | Some n \<Rightarrow> n)"

definition slice_range :: "slice \<Rightarrow> nat set" where
  "slice_range s = {fst s..<snd s}"

definition tbl_bounded :: "slices \<Rightarrow> nat \<Rightarrow> bool" where
  "tbl_bounded sl e = (\<forall>d. \<forall>s\<in>set (getitem_default sl d). snd s \<le> e)"

definition tbl_covers :: "slices \<Rightarrow> nat \<Rightarrow> bool" where
  "tbl_covers sl e = ((\<Union>d. \<Union>s\<in>set (getitem_default sl d). slice_range s) = {0..<e})"

definition tbl_disjoint :: "slices \<Rightarrow> bool" where
  "tbl_disjoint sl =
     (\<forall>d i d' i'. (d, i) \<noteq> (d', i') \<and> i < length (getitem_default sl d)
         \<and> i' < length (getitem_default sl d') \<longrightarrow>
       slice_range (getitem_default sl d ! i) \<inter> slice_range (getitem_default sl d' ! i') = {})"

text \<open>
  The indicator of a state-vector reference at an index: one where its evaluation array
  holds \<open>True\<close>, zero elsewhere and past the end of the array.
\<close>

definition indicator_at :: "symbol \<Rightarrow> nat \<Rightarrow> nat" where
  "indicator_at c i =
     (if i < length (evaluation_array (cls c)) \<and> evaluation_array (cls c) ! i then 1 else 0)"



section \<open>Properties of the domain validator\<close>

lemma pairwise_Cons:
  "(\<forall>i j. i < j \<and> j < length (c # cs) \<longrightarrow> P ((c # cs) ! i) ((c # cs) ! j)) \<longleftrightarrow>
   (\<forall>x\<in>set cs. P c x) \<and> (\<forall>i j. i < j \<and> j < length cs \<longrightarrow> P (cs ! i) (cs ! j))"
  (is "?L \<longleftrightarrow> ?A \<and> ?B")
proof
  assume L: ?L
  have A: ?A
  proof
    fix x assume "x \<in> set cs"
    then obtain k where k: "k < length cs" "cs ! k = x" by (auto simp: in_set_conv_nth)
    from L have "0 < Suc k \<and> Suc k < length (c # cs) \<longrightarrow> P ((c # cs) ! 0) ((c # cs) ! Suc k)"
      by blast
    with k show "P c x" by simp
  qed
  have B: ?B
  proof (intro allI impI)
    fix i j assume ij: "i < j \<and> j < length cs"
    from L have "Suc i < Suc j \<and> Suc j < length (c # cs) \<longrightarrow> P ((c # cs) ! Suc i) ((c # cs) ! Suc j)"
      by blast
    with ij show "P (cs ! i) (cs ! j)" by simp
  qed
  from A B show "?A \<and> ?B" ..
next
  assume AB: "?A \<and> ?B"
  show ?L
  proof (intro allI impI)
    fix i j assume ij: "i < j \<and> j < length (c # cs)"
    then obtain j' where j': "j = Suc j'" by (cases j) auto
    show "P ((c # cs) ! i) ((c # cs) ! j)"
    proof (cases i)
      case 0
      with ij j' AB show ?thesis by simp
    next
      case (Suc i')
      with ij j' AB show ?thesis by simp
    qed
  qed
qed

lemma combine_domains_Inr_iff:
  "combine_domains acc cs = Inr r \<longleftrightarrow>
     r = acc @ concat (map domain cs) \<and>
     (\<forall>c\<in>set cs. isinstance_Symbol c \<and> domain c \<noteq> [] \<and> set acc \<inter> set (domain c) = {}) \<and>
     (\<forall>i j. i < j \<and> j < length cs \<longrightarrow> set (domain (cs ! i)) \<inter> set (domain (cs ! j)) = {})"
proof (induction cs arbitrary: acc)
  case Nil
  show ?case by auto
next
  case (Cons c cs)
  show ?case
    unfolding pairwise_Cons [where P = "\<lambda>a b. set (domain a) \<inter> set (domain b) = {}"]
    using Cons.IH [of "acc @ domain c"]
    by (auto simp: Int_Un_distrib2)
qed

lemma combine_domains_Inl:
  "\<forall>c\<in>set cs. isinstance_Symbol c \<Longrightarrow> combine_domains acc cs = Inl e \<Longrightarrow> e = DomainError"
  by (induction cs arbitrary: acc) (auto split: if_splits)

section \<open>Properties of the slice tables\<close>

lemma getitem_default_append_slice:
  "getitem_default (append_slice k s sl) k' =
     (if k' = k then getitem_default sl k @ [s] else getitem_default sl k')"
  by (induction sl) auto

lemma keys_append_slice:
  "map fst (append_slice k s sl) = (if k \<in> fst ` set sl then map fst sl else map fst sl @ [k])"
  by (induction sl) (fastforce simp: image_iff)+

lemma create_slices_domains_append:
  "create_slices_domains m (xs @ ys) st =
     (case create_slices_domains m xs st of Inl e \<Rightarrow> Inl e | Inr st' \<Rightarrow> create_slices_domains m ys st')"
proof (induction xs arbitrary: st)
  case Nil
  show ?case by simp
next
  case (Cons x xs)
  obtain sl s e where st: "st = (sl, s, e)" by (cases st) auto
  show ?case unfolding st by (simp add: Cons.IH split: option.splits)
qed

lemma create_slices_repeats_flat:
  "create_slices_repeats m n ds st = create_slices_domains m (concat (replicate n ds)) st"
proof (induction n arbitrary: st)
  case 0
  show ?case by simp
next
  case (Suc n)
  show ?case by (simp add: create_slices_domains_append Suc.IH split: sum.splits)
qed

lemma create_slices_domains_Inr_iff:
  "(\<exists>st'. create_slices_domains m ds (sl, s, e) = Inr st') \<longleftrightarrow> (\<forall>d\<in>set ds. npts m d \<noteq> None)"
proof (induction ds arbitrary: sl s e)
  case Nil
  show ?case by simp
next
  case (Cons x xs)
  show ?case using Cons.IH by (auto split: option.splits)
qed

lemma create_slices_domains_Inl:
  "create_slices_domains m ds (sl, s, e) = Inl err \<Longrightarrow> err = KeyError"
proof (induction ds arbitrary: sl s e)
  case Nil
  then show ?case by simp
next
  case (Cons x xs)
  then show ?case by (auto split: option.splits)
qed

lemma create_slices_domains_end:
  "create_slices_domains m ds (sl, s, e) = Inr (sl', s', e') \<Longrightarrow>
     e' = e + sum_list (map (npts_of m) ds) \<and> (ds \<noteq> [] \<longrightarrow> s' = e')"
proof (induction ds arbitrary: sl s e)
  case Nil
  then show ?case by simp
next
  case (Cons x xs)
  from Cons.prems obtain n where n: "npts m x = Some n"
    and rest: "create_slices_domains m xs (append_slice x (s, e + n) sl, e + n, e + n) = Inr (sl', s', e')"
    by (auto split: option.splits)
  have nx: "npts_of m x = n" using n by (simp add: npts_of_def)
  from Cons.IH [OF rest] have "e' = e + n + sum_list (map (npts_of m) xs)" "xs \<noteq> [] \<longrightarrow> s' = e'"
    by auto
  moreover have "xs = [] \<Longrightarrow> s' = e'" using rest by simp
  ultimately show ?case using nx by auto
qed

lemma create_slices_domains_length:
  "create_slices_domains m ds (sl, s, e) = Inr (sl', s', e') \<Longrightarrow>
     length (getitem_default sl' d) = length (getitem_default sl d) + count_list ds d"
proof (induction ds arbitrary: sl s e)
  case Nil
  then show ?case by simp
next
  case (Cons x xs)
  then show ?case by (fastforce simp: getitem_default_append_slice split: option.splits)
qed

lemma create_slices_domains_prefix:
  "create_slices_domains m ds (sl, s, e) = Inr (sl', s', e') \<Longrightarrow>
     i < length (getitem_default sl d) \<Longrightarrow> getitem_default sl' d ! i = getitem_default sl d ! i"
proof (induction ds arbitrary: sl s e)
  case Nil
  then show ?case by simp
next
  case (Cons x xs)
  from Cons.prems obtain n where n: "npts m x = Some n"
    and rest: "create_slices_domains m xs (append_slice x (s, e + n) sl, e + n, e + n) = Inr (sl', s', e')"
    by (auto split: option.splits)
  have "i < length (getitem_default (append_slice x (s, e + n) sl) d)"
    using Cons.prems(2) by (auto simp: getitem_default_append_slice)
  from Cons.IH [OF rest this] show ?case
    using Cons.prems(2) by (auto simp: getitem_default_append_slice nth_append)
qed

lemma create_slices_domains_layout:
  "create_slices_domains m ds (sl, e, e) = Inr (sl', s', e') \<Longrightarrow> j < length ds \<Longrightarrow>
     getitem_default sl' (ds ! j) ! (length (getitem_default sl (ds ! j)) + count_list (take j ds) (ds ! j))
       = (e + sum_list (map (npts_of m) (take j ds)), e + sum_list (map (npts_of m) (take (Suc j) ds)))"
proof (induction ds arbitrary: sl e j)
  case Nil
  then show ?case by simp
next
  case (Cons x xs)
  from Cons.prems obtain n where n: "npts m x = Some n"
    and rest: "create_slices_domains m xs (append_slice x (e, e + n) sl, e + n, e + n) = Inr (sl', s', e')"
    by (auto split: option.splits)
  have nx: "npts_of m x = n" using n by (simp add: npts_of_def)
  show ?case
  proof (cases j)
    case 0
    have "getitem_default sl' x ! length (getitem_default sl x)
            = getitem_default (append_slice x (e, e + n) sl) x ! length (getitem_default sl x)"
      by (rule create_slices_domains_prefix [OF rest]) (simp add: getitem_default_append_slice)
    then show ?thesis using 0 nx by (simp add: getitem_default_append_slice)
  next
    case (Suc j')
    then have j': "j' < length xs" using Cons.prems(2) by simp
    from Cons.IH [OF rest j'] show ?thesis
      using Suc nx by (auto simp: getitem_default_append_slice ac_simps)
  qed
qed

lemma tbl_bounded_range:
  "tbl_bounded sl e \<Longrightarrow> i < length (getitem_default sl d) \<Longrightarrow>
     slice_range (getitem_default sl d ! i) \<subseteq> {0..<e}"
  unfolding tbl_bounded_def slice_range_def
  by (metis atLeastLessThan_iff less_le_trans nth_mem subsetI zero_le)

lemma tbl_bounded_step:
  "tbl_bounded sl e \<Longrightarrow> tbl_bounded (append_slice x (e, e + n) sl) (e + n)"
  unfolding tbl_bounded_def by (auto simp: getitem_default_append_slice trans_le_add1)

lemma tbl_covers_step:
  assumes "tbl_covers sl e"
  shows "tbl_covers (append_slice x (e, e + n) sl) (e + n)"
proof -
  have "\<And>d. (\<Union>s\<in>set (getitem_default (append_slice x (e, e + n) sl) d). slice_range s)
        = (\<Union>s\<in>set (getitem_default sl d). slice_range s) \<union> (if d = x then {e..<e + n} else {})"
    by (simp add: getitem_default_append_slice slice_range_def Un_commute)
  then have "(\<Union>d. \<Union>s\<in>set (getitem_default (append_slice x (e, e + n) sl) d). slice_range s)
        = (\<Union>d. \<Union>s\<in>set (getitem_default sl d). slice_range s) \<union> (\<Union>d. if d = x then {e..<e + n} else {})"
    by (simp add: UN_Un_distrib)
  also have "(\<Union>d. if d = x then {e..<e + n} else {}) = {e..<e + n}"
    by auto
  finally have "(\<Union>d. \<Union>s\<in>set (getitem_default (append_slice x (e, e + n) sl) d). slice_range s)
        = (\<Union>d. \<Union>s\<in>set (getitem_default sl d). slice_range s) \<union> {e..<e + n}" .
  also have "\<dots> = {0..<e} \<union> {e..<e + n}" using assms by (simp add: tbl_covers_def)
  also have "\<dots> = {0..<e + n}" by auto
  finally show ?thesis by (simp add: tbl_covers_def)
qed

lemma tbl_disjoint_step:
  assumes b: "tbl_bounded sl e" and dj: "tbl_disjoint sl"
  shows "tbl_disjoint (append_slice x (e, e + n) sl)"
  unfolding tbl_disjoint_def
proof (intro allI impI)
  fix d i d' i'
  let ?sl' = "append_slice x (e, e + n) sl"
  assume h: "(d, i) \<noteq> (d', i') \<and> i < length (getitem_default ?sl' d)
      \<and> i' < length (getitem_default ?sl' d')"
  have new: "slice_range (e, e + n) \<inter> {0..<e} = {}" by (auto simp: slice_range_def)
  consider (old) "i < length (getitem_default sl d)" "i' < length (getitem_default sl d')"
    | (new1) "d = x" "i = length (getitem_default sl x)" "i' < length (getitem_default sl d')"
    | (new2) "d' = x" "i' = length (getitem_default sl x)" "i < length (getitem_default sl d)"
    using h by (auto simp: getitem_default_append_slice less_Suc_eq split: if_splits)
  then show "slice_range (getitem_default ?sl' d ! i) \<inter> slice_range (getitem_default ?sl' d' ! i') = {}"
  proof cases
    case old
    then have "getitem_default ?sl' d ! i = getitem_default sl d ! i"
      "getitem_default ?sl' d' ! i' = getitem_default sl d' ! i'"
      by (auto simp: getitem_default_append_slice nth_append)
    with dj h old show ?thesis unfolding tbl_disjoint_def by metis
  next
    case new1
    have a: "getitem_default ?sl' d ! i = (e, e + n)"
      using new1 by (simp add: getitem_default_append_slice)
    have "getitem_default ?sl' d' ! i' = getitem_default sl d' ! i'"
      using new1 by (auto simp: getitem_default_append_slice nth_append)
    with tbl_bounded_range [OF b new1(3)] a new show ?thesis by auto
  next
    case new2
    have a: "getitem_default ?sl' d' ! i' = (e, e + n)"
      using new2 by (simp add: getitem_default_append_slice)
    have "getitem_default ?sl' d ! i = getitem_default sl d ! i"
      using new2 by (auto simp: getitem_default_append_slice nth_append)
    with tbl_bounded_range [OF b new2(3)] a new show ?thesis by auto
  qed
qed

lemma create_slices_domains_partition:
  "create_slices_domains m ds (sl, s, e) = Inr (sl', s', e') \<Longrightarrow>
     s = e \<Longrightarrow> tbl_bounded sl e \<Longrightarrow> tbl_covers sl e \<Longrightarrow> tbl_disjoint sl \<Longrightarrow>
     tbl_bounded sl' e' \<and> tbl_covers sl' e' \<and> tbl_disjoint sl'"
proof (induction ds arbitrary: sl s e)
  case Nil
  then show ?case by auto
next
  case (Cons x xs)
  from Cons.prems obtain n where n: "npts m x = Some n"
    and rest: "create_slices_domains m xs (append_slice x (e, e + n) sl, e + n, e + n) = Inr (sl', s', e')"
    by (auto split: option.splits)
  show ?case
    by (rule Cons.IH [OF rest refl tbl_bounded_step tbl_covers_step tbl_disjoint_step])
       (use Cons.prems in auto)
qed


lemma getitem_default_Nil_tbl [simp]:
  "tbl_bounded [] 0" "tbl_covers [] 0" "tbl_disjoint []"
  by (auto simp: tbl_bounded_def tbl_covers_def tbl_disjoint_def)

lemma create_slices_Inr:
  assumes "create_slices m sd n ds = Inr sl"
  shows "get_auxiliary_domain_repeats m sd = Inr n"
    and "\<exists>s e. create_slices_domains m (concat (replicate n ds)) ([], 0, 0) = Inr (sl, s, e)"
  using assms unfolding create_slices_def
  by (auto simp: create_slices_repeats_flat split: sum.splits if_splits prod.splits)

lemma create_slices_never_ValueError:
  "get_auxiliary_domain_repeats m sd = Inr n \<Longrightarrow> create_slices m sd n ds \<noteq> Inl ValueError"
  unfolding create_slices_def
  by (auto simp: create_slices_repeats_flat split: sum.splits prod.splits dest: create_slices_domains_Inl)

lemma take_concat_replicate:
  "r < n \<Longrightarrow> k \<le> length ds \<Longrightarrow>
     take (r * length ds + k) (concat (replicate n ds)) = concat (replicate r ds) @ take k ds"
proof (induction r arbitrary: n)
  case 0
  then obtain n' where "n = Suc n'" by (cases n) auto
  with 0 show ?case by simp
next
  case (Suc r)
  then obtain n' where n': "n = Suc n'" by (cases n) auto
  with Suc.prems have "r < n'" by simp
  from Suc.IH [OF this Suc.prems(2)] show ?case
    by (simp add: n' add.assoc)
qed

lemma nth_concat_replicate:
  "r < n \<Longrightarrow> k < length ds \<Longrightarrow> concat (replicate n ds) ! (r * length ds + k) = ds ! k"
proof (induction r arbitrary: n)
  case 0
  then obtain n' where "n = Suc n'" by (cases n) auto
  with 0 show ?case by (simp add: nth_append)
next
  case (Suc r)
  then obtain n' where n': "n = Suc n'" by (cases n) auto
  with Suc.prems have "r < n'" by simp
  from Suc.IH [OF this Suc.prems(2)] show ?case
    by (simp add: n' nth_append add.assoc)
qed

lemma length_concat_replicate: "length (concat (replicate n ds)) = n * length ds"
  by (induction n) auto

lemma count_list_append': "count_list (xs @ ys) d = count_list xs d + count_list ys d"
  by (induction xs) auto

lemma count_list_concat_replicate: "count_list (concat (replicate n ds)) d = n * count_list ds d"
  by (induction n) (auto simp: count_list_append')

lemma sum_list_concat_replicate:
  "sum_list (map f (concat (replicate n ds))) = n * sum_list (map f ds)"
  by (induction n) auto

lemma flat_index_less:
  "r < n \<Longrightarrow> k < length ds \<Longrightarrow> r * length ds + k < n * length (ds::'a list)"
proof -
  assume a: "r < n" "k < length ds"
  then have "r * length ds + k < r * length ds + length ds" by simp
  also have "\<dots> = Suc r * length ds" by simp
  also have "\<dots> \<le> n * length ds" using a(1) by (intro mult_le_mono1) simp
  finally show ?thesis .
qed

lemma create_slices_layout:
  assumes cs: "create_slices m sd n ds = Inr sl" and r: "r < n" and k: "k < length ds"
  shows "getitem_default sl (ds ! k) ! (r * count_list ds (ds ! k) + count_list (take k ds) (ds ! k))
     = (r * sum_list (map (npts_of m) ds) + sum_list (map (npts_of m) (take k ds)),
        r * sum_list (map (npts_of m) ds) + sum_list (map (npts_of m) (take (Suc k) ds)))"
proof -
  let ?D = "concat (replicate n ds)"
  let ?j = "r * length ds + k"
  from create_slices_Inr(2) [OF cs] obtain s e where
    run: "create_slices_domains m ?D ([], 0, 0) = Inr (sl, s, e)" by blast
  have j: "?j < length ?D" using flat_index_less [OF r k] by (simp add: length_concat_replicate)
  have nth: "?D ! ?j = ds ! k" by (rule nth_concat_replicate [OF r k])
  have tk: "take ?j ?D = concat (replicate r ds) @ take k ds"
    using take_concat_replicate [OF r, of k ds] k by simp
  have tk': "take (Suc ?j) ?D = concat (replicate r ds) @ take (Suc k) ds"
    using take_concat_replicate [OF r, of "Suc k" ds] k by simp
  from create_slices_domains_layout [OF run j]
  show ?thesis
    unfolding nth tk tk'
    by (simp add: count_list_append' count_list_concat_replicate sum_list_concat_replicate)
qed

lemma create_slices_length:
  assumes cs: "create_slices m sd n ds = Inr sl"
  shows "length (getitem_default sl d) = n * count_list ds d"
proof -
  from create_slices_Inr(2) [OF cs] obtain s e where
    run: "create_slices_domains m (concat (replicate n ds)) ([], 0, 0) = Inr (sl, s, e)" by blast
  from create_slices_domains_length [OF run, of d] show ?thesis
    by (simp add: count_list_concat_replicate)
qed

lemma create_slices_partition:
  assumes cs: "create_slices m sd n ds = Inr sl"
  shows "tbl_bounded sl (n * sum_list (map (npts_of m) ds))"
    and "tbl_covers sl (n * sum_list (map (npts_of m) ds))"
    and "tbl_disjoint sl"
proof -
  from create_slices_Inr(2) [OF cs] obtain s e where
    run: "create_slices_domains m (concat (replicate n ds)) ([], 0, 0) = Inr (sl, s, e)" by blast
  have e: "e = n * sum_list (map (npts_of m) ds)"
    using create_slices_domains_end [OF run] by (simp add: sum_list_concat_replicate)
  from create_slices_domains_partition [OF run] e
  show "tbl_bounded sl (n * sum_list (map (npts_of m) ds))"
    and "tbl_covers sl (n * sum_list (map (npts_of m) ds))"
    and "tbl_disjoint sl" by auto
qed


lemma Concatenation_init_Inr:
  assumes "Concatenation_init k cs nm True = Inr self"
  shows "get_children_domains cs = Inr (domains self)" and "children self = cs" and "cls self = k"
  using assms unfolding Concatenation_init_def
  by (auto split: if_splits sum.splits)

lemma DomainConcatenation_init_Inr:
  assumes "DomainConcatenation_init cs m None = Inr dc"
  shows "get_children_domains cs = Inr (domains (node dc))"
    and "children (node dc) = cs"
    and "full_mesh dc = m"
    and "get_auxiliary_domain_repeats m (domains (node dc)) = Inr (secondary_dimensions_npts dc)"
    and "create_slices m (domains (node dc)) (secondary_dimensions_npts dc) (domain (node dc))
           = Inr (slices_of dc)"
    and "last_stop (slices_of dc) (domain (node dc)) = Inr (size_of dc)"
    and "create_children_slices m (domains (node dc)) (secondary_dimensions_npts dc) cs
           = Inr (children_slices dc)"
  using assms unfolding DomainConcatenation_init_def
  by (auto split: sum.splits dest: Concatenation_init_Inr)

lemma get_children_domains_primary:
  "get_children_domains cs = Inr d \<Longrightarrow> primary d = concat (map domain cs)"
  unfolding get_children_domains_def
  by (auto simp: combine_domains_Inr_iff Let_def split: sum.splits list.splits if_splits)

lemma get_children_domains_Inr_iff:
  "get_children_domains cs = Inr d \<longleftrightarrow>
     cs \<noteq> [] \<and>
     (\<forall>c\<in>set cs. isinstance_Symbol c \<and> domain c \<noteq> []) \<and>
     (\<forall>i j. i < j \<and> j < length cs \<longrightarrow> set (domain (cs ! i)) \<inter> set (domain (cs ! j)) = {}) \<and>
     level_compatible secondary (domains (hd cs)) (tl cs) \<and>
     level_compatible tertiary (domains (hd cs)) (tl cs) \<and>
     level_compatible quaternary (domains (hd cs)) (tl cs) \<and>
     d = (domains (hd cs))\<lparr>primary := concat (map domain cs)\<rparr>"
proof (cases "combine_domains [] cs")
  case (Inl e)
  then have "\<not> (\<exists>r. combine_domains [] cs = Inr r)" by simp
  then have "\<not> ((\<forall>c\<in>set cs. isinstance_Symbol c \<and> domain c \<noteq> []) \<and>
     (\<forall>i j. i < j \<and> j < length cs \<longrightarrow> set (domain (cs ! i)) \<inter> set (domain (cs ! j)) = {}))"
    unfolding combine_domains_Inr_iff by simp
  moreover have "get_children_domains cs \<noteq> Inr d"
    using Inl by (simp add: get_children_domains_def)
  ultimately show ?thesis by blast
next
  case (Inr r)
  then have r: "r = concat (map domain cs)"
    and ok: "(\<forall>c\<in>set cs. isinstance_Symbol c \<and> domain c \<noteq> [])"
      "(\<forall>i j. i < j \<and> j < length cs \<longrightarrow> set (domain (cs ! i)) \<inter> set (domain (cs ! j)) = {})"
    unfolding combine_domains_Inr_iff by auto
  show ?thesis
  proof (cases cs)
    case Nil
    then show ?thesis using Inr by (simp add: get_children_domains_def)
  next
    case (Cons c rest)
    have "get_children_domains cs = Inr d \<longleftrightarrow>
       level_compatible secondary (domains c) rest \<and>
       level_compatible tertiary (domains c) rest \<and>
       level_compatible quaternary (domains c) rest \<and>
       d = (domains c)\<lparr>primary := r\<rparr>"
      using Inr Cons by (auto simp: get_children_domains_def Let_def)
    then show ?thesis using ok Cons r by auto
  qed
qed

lemma get_children_domains_Inl:
  assumes "\<forall>c\<in>set cs. isinstance_Symbol c" and "cs \<noteq> []" and "get_children_domains cs = Inl e"
  shows "e = DomainError"
proof (cases "combine_domains [] cs")
  case (Inl e')
  with assms(3) have "e = e'" by (simp add: get_children_domains_def)
  with combine_domains_Inl [OF assms(1) Inl] show ?thesis by simp
next
  case (Inr r)
  with assms(2,3) show ?thesis
    by (auto simp: get_children_domains_def Let_def split: list.splits if_splits)
qed

lemma get_children_domains_cases:
  assumes "\<forall>c\<in>set cs. isinstance_Symbol c" and "cs \<noteq> []"
  shows "get_children_domains cs = Inl DomainError \<or> (\<exists>d. get_children_domains cs = Inr d)"
proof (cases "get_children_domains cs")
  case (Inl e)
  with get_children_domains_Inl [OF assms Inl] show ?thesis by simp
next
  case (Inr d)
  then show ?thesis by simp
qed


section \<open>The claims about the domain validator\<close>


lemma disjoint_Cons:
  "(\<forall>i j. i < j \<and> j < length (c # cs) \<longrightarrow>
      set (domain ((c # cs) ! i)) \<inter> set (domain ((c # cs) ! j)) = {}) \<longleftrightarrow>
   (\<forall>x\<in>set cs. set (domain c) \<inter> set (domain x) = {}) \<and>
   (\<forall>i j. i < j \<and> j < length cs \<longrightarrow> set (domain (cs ! i)) \<inter> set (domain (cs ! j)) = {})"
  by (rule pairwise_Cons [where P = "\<lambda>x y. set (domain x) \<inter> set (domain y) = {}"])


lemma level_incompatible:
  "level (domains c) \<noteq> [] \<Longrightarrow>
   \<exists>x\<in>set rest. level (domains x) \<noteq> [] \<and> level (domains x) \<noteq> level (domains c) \<Longrightarrow>
   \<not> level_compatible level (domains c) rest"
  by (auto simp: level_compatible_def list_all_iff)

text \<open>
  Claim C7, as amended.  Every auxiliary level of the merged descriptor is the first
  child's sequence at that level, also when that sequence is empty.  The validator fails
  with \<open>DomainError\<close> whenever a level is non-empty in the first child and some later
  child holds, at that level, a sequence that is neither empty nor the first child's
  (all children being nodes).
\<close>

theorem C7_auxiliary_levels_of_first_child:
  "(get_children_domains cs = Inr d \<longrightarrow>
      secondary d = secondary (domains (hd cs)) \<and>
      tertiary d = tertiary (domains (hd cs)) \<and>
      quaternary d = quaternary (domains (hd cs))) \<and>
   (cs \<noteq> [] \<and> (\<forall>c\<in>set cs. isinstance_Symbol c) \<and>
    ((secondary (domains (hd cs)) \<noteq> [] \<and>
      (\<exists>c\<in>set (tl cs). secondary (domains c) \<noteq> [] \<and>
          secondary (domains c) \<noteq> secondary (domains (hd cs)))) \<or>
     (tertiary (domains (hd cs)) \<noteq> [] \<and>
      (\<exists>c\<in>set (tl cs). tertiary (domains c) \<noteq> [] \<and>
          tertiary (domains c) \<noteq> tertiary (domains (hd cs)))) \<or>
     (quaternary (domains (hd cs)) \<noteq> [] \<and>
      (\<exists>c\<in>set (tl cs). quaternary (domains c) \<noteq> [] \<and>
          quaternary (domains c) \<noteq> quaternary (domains (hd cs)))))
    \<longrightarrow> get_children_domains cs = Inl DomainError)"
proof (rule conjI; rule impI)
  assume "get_children_domains cs = Inr d"
  then have "d = (domains (hd cs))\<lparr>primary := concat (map domain cs)\<rparr>"
    unfolding get_children_domains_Inr_iff by simp
  then show "secondary d = secondary (domains (hd cs)) \<and>
      tertiary d = tertiary (domains (hd cs)) \<and>
      quaternary d = quaternary (domains (hd cs))" by simp
next
  assume h: "cs \<noteq> [] \<and> (\<forall>c\<in>set cs. isinstance_Symbol c) \<and>
    ((secondary (domains (hd cs)) \<noteq> [] \<and>
      (\<exists>c\<in>set (tl cs). secondary (domains c) \<noteq> [] \<and>
          secondary (domains c) \<noteq> secondary (domains (hd cs)))) \<or>
     (tertiary (domains (hd cs)) \<noteq> [] \<and>
      (\<exists>c\<in>set (tl cs). tertiary (domains c) \<noteq> [] \<and>
          tertiary (domains c) \<noteq> tertiary (domains (hd cs)))) \<or>
     (quaternary (domains (hd cs)) \<noteq> [] \<and>
      (\<exists>c\<in>set (tl cs). quaternary (domains c) \<noteq> [] \<and>
          quaternary (domains c) \<noteq> quaternary (domains (hd cs)))))"
  then have "\<not> level_compatible secondary (domains (hd cs)) (tl cs)
      \<or> \<not> level_compatible tertiary (domains (hd cs)) (tl cs)
      \<or> \<not> level_compatible quaternary (domains (hd cs)) (tl cs)"
    using level_incompatible [of secondary "hd cs" "tl cs"]
      level_incompatible [of tertiary "hd cs" "tl cs"]
      level_incompatible [of quaternary "hd cs" "tl cs"]
    by blast
  then have "\<not> (\<exists>d. get_children_domains cs = Inr d)"
    unfolding get_children_domains_Inr_iff by blast
  with get_children_domains_cases [of cs] h
  show "get_children_domains cs = Inl DomainError" by blast
qed

theorem C7_auxiliary_levels_of_first_child_witness:
  "secondary (domains (hd
     [Symbol Symbol_class ''a'' []
        \<lparr>primary = [''negative electrode''], secondary = [''current collector''],
         tertiary = [], quaternary = []\<rparr>,
      Symbol Symbol_class ''b'' []
        \<lparr>primary = [''separator''], secondary = [],
         tertiary = [], quaternary = []\<rparr>])) = [''current collector'']
   \<and> get_children_domains
     [Symbol Symbol_class ''a'' []
        \<lparr>primary = [''negative electrode''], secondary = [''current collector''],
         tertiary = [], quaternary = []\<rparr>,
      Symbol Symbol_class ''b'' []
        \<lparr>primary = [''separator''], secondary = [],
         tertiary = [], quaternary = []\<rparr>]
     = Inr \<lparr>primary = [''negative electrode'', ''separator''],
            secondary = [''current collector''], tertiary = [], quaternary = []\<rparr>
   \<and> get_children_domains
     [Symbol Symbol_class ''a'' []
        \<lparr>primary = [''negative electrode''], secondary = [''current collector''],
         tertiary = [], quaternary = []\<rparr>,
      Symbol Symbol_class ''c'' []
        \<lparr>primary = [''separator''], secondary = [''some other domain''],
         tertiary = [], quaternary = []\<rparr>]
     = Inl DomainError"
proof -
  let ?a = "Symbol Symbol_class ''a'' []
        \<lparr>primary = [''negative electrode''], secondary = [''current collector''],
         tertiary = [], quaternary = []\<rparr>"
  let ?b = "Symbol Symbol_class ''b'' []
        \<lparr>primary = [''separator''], secondary = [],
         tertiary = [], quaternary = []\<rparr>"
  let ?c = "Symbol Symbol_class ''c'' []
        \<lparr>primary = [''separator''], secondary = [''some other domain''],
         tertiary = [], quaternary = []\<rparr>"
  let ?d = "\<lparr>primary = [''negative electrode'', ''separator''],
            secondary = [''current collector''], tertiary = [], quaternary = []\<rparr>"
  have ok: "get_children_domains [?a, ?b] = Inr ?d"
    unfolding get_children_domains_Inr_iff disjoint_Cons
    by (simp add: isinstance_Symbol_def domain_def level_compatible_def)
  have bad: "[?a, ?c] \<noteq> [] \<and> (\<forall>x\<in>set [?a, ?c]. isinstance_Symbol x) \<and>
     secondary (domains (hd [?a, ?c])) \<noteq> [] \<and>
      (\<exists>x\<in>set (tl [?a, ?c]). secondary (domains x) \<noteq> [] \<and>
          secondary (domains x) \<noteq> secondary (domains (hd [?a, ?c])))"
    by (simp add: isinstance_Symbol_def)
  from C7_auxiliary_levels_of_first_child [of "[?a, ?b]" ?d] ok
  have "secondary ?d = secondary (domains (hd [?a, ?b]))" by blast
  moreover from C7_auxiliary_levels_of_first_child [of "[?a, ?c]"] bad
  have "get_children_domains [?a, ?c] = Inl DomainError" by blast
  ultimately show ?thesis using ok by simp
qed

text \<open>
  The claim as first stated fails: with a first child whose secondary level is empty, the
  validator accepts a second and a third child with two different non-empty secondary
  levels, and the merged secondary level is empty, not the second child's.
\<close>

theorem C7_counterexample:
  "get_children_domains
     [Symbol Symbol_class ''a'' []
        \<lparr>primary = [''negative electrode''], secondary = [], tertiary = [], quaternary = []\<rparr>,
      Symbol Symbol_class ''b'' []
        \<lparr>primary = [''separator''], secondary = [''current collector''],
         tertiary = [], quaternary = []\<rparr>,
      Symbol Symbol_class ''c'' []
        \<lparr>primary = [''positive electrode''], secondary = [''some other domain''],
         tertiary = [], quaternary = []\<rparr>]
   = Inr \<lparr>primary = [''negative electrode'', ''separator'', ''positive electrode''],
          secondary = [], tertiary = [], quaternary = []\<rparr>"
  unfolding get_children_domains_Inr_iff disjoint_Cons
  by (simp add: isinstance_Symbol_def domain_def level_compatible_def)

lemma create_slices_domains_last:
  "create_slices_domains m ds (sl, s, e) = Inr (sl', s', e') \<Longrightarrow> ds \<noteq> [] \<Longrightarrow>
     getitem_default sl' (last ds) \<noteq> [] \<and> snd (last (getitem_default sl' (last ds))) = e'"
proof (induction ds arbitrary: sl s e)
  case Nil
  then show ?case by simp
next
  case (Cons x xs)
  from Cons.prems obtain n where n: "npts m x = Some n"
    and rest: "create_slices_domains m xs (append_slice x (s, e + n) sl, e + n, e + n) = Inr (sl', s', e')"
    by (auto split: option.splits)
  show ?case
  proof (cases "xs = []")
    case True
    with rest show ?thesis by (auto simp: getitem_default_append_slice)
  next
    case False
    with Cons.IH [OF rest] show ?thesis by simp
  qed
qed

lemma create_slices_domains_keys:
  "create_slices_domains m ds (sl, s, e) = Inr (sl', s', e') \<Longrightarrow>
     set (map fst sl') = set (map fst sl) \<union> set ds \<and> (distinct (map fst sl) \<longrightarrow> distinct (map fst sl'))"
proof (induction ds arbitrary: sl s e)
  case Nil
  then show ?case by simp
next
  case (Cons x xs)
  from Cons.prems obtain n where n: "npts m x = Some n"
    and rest: "create_slices_domains m xs (append_slice x (s, e + n) sl, e + n, e + n) = Inr (sl', s', e')"
    by (auto split: option.splits)
  from Cons.IH [OF rest] show ?case
    by (auto simp: keys_append_slice split: if_splits)
qed

lemma create_slices_keys:
  assumes cs: "create_slices m sd n ds = Inr sl" and n: "0 < n"
  shows "set (map fst sl) = set ds" and "distinct (map fst sl)"
proof -
  from create_slices_Inr(2) [OF cs] obtain s e where
    run: "create_slices_domains m (concat (replicate n ds)) ([], 0, 0) = Inr (sl, s, e)" by blast
  from n obtain n' where n': "n = Suc n'" by (cases n) auto
  have "set (concat (replicate n ds)) = set ds" by (auto simp: n')
  with create_slices_domains_keys [OF run]
  show "set (map fst sl) = set ds" and "distinct (map fst sl)" by auto
qed

lemma create_slices_mesh:
  assumes cs: "create_slices m sd n ds = Inr sl" and n: "0 < n" and d: "d \<in> set ds"
  shows "npts m d = Some (npts_of m d)"
proof -
  from create_slices_Inr(2) [OF cs] obtain s e where
    run: "create_slices_domains m (concat (replicate n ds)) ([], 0, 0) = Inr (sl, s, e)" by blast
  from n obtain n' where n': "n = Suc n'" by (cases n) auto
  have "d \<in> set (concat (replicate n ds))" using d by (auto simp: n')
  moreover have "\<forall>d\<in>set (concat (replicate n ds)). npts m d \<noteq> None"
    using create_slices_domains_Inr_iff [of m "concat (replicate n ds)" "[]" 0 0] run by auto
  ultimately show ?thesis by (auto simp: npts_of_def)
qed

lemma create_slices_zero:
  assumes cs: "create_slices m sd 0 ds = Inr sl"
  shows "sl = []"
  using create_slices_Inr(2) [OF cs] by simp

lemma create_slices_last:
  assumes cs: "create_slices m sd n ds = Inr sl" and n: "0 < n" and ds: "ds \<noteq> []"
  shows "getitem_default sl (last ds) \<noteq> []"
    and "snd (last (getitem_default sl (last ds))) = n * sum_list (map (npts_of m) ds)"
proof -
  let ?D = "concat (replicate n ds)"
  from create_slices_Inr(2) [OF cs] obtain s e where
    run: "create_slices_domains m ?D ([], 0, 0) = Inr (sl, s, e)" by blast
  from n obtain n' where n': "n = Suc n'" by (cases n) auto
  have D: "?D \<noteq> []" using ds by (simp add: n')
  have l: "last ?D = last ds"
    unfolding n' using ds by (induction n') auto
  have e: "e = n * sum_list (map (npts_of m) ds)"
    using create_slices_domains_end [OF run] by (simp add: sum_list_concat_replicate)
  from create_slices_domains_last [OF run D] l e
  show "getitem_default sl (last ds) \<noteq> []"
    and "snd (last (getitem_default sl (last ds))) = n * sum_list (map (npts_of m) ds)" by auto
qed

lemma last_stop_Inr:
  assumes "last_stop sl ds = Inr sz"
  shows "ds \<noteq> []" and "getitem_default sl (last ds) \<noteq> []"
    and "sz = snd (last (getitem_default sl (last ds)))"
  using assms by (auto simp: last_stop_def split: if_splits)

lemma DomainConcatenation_init_repeats_pos:
  assumes "DomainConcatenation_init cs m None = Inr dc"
  shows "0 < secondary_dimensions_npts dc"
proof (rule ccontr)
  assume "\<not> 0 < secondary_dimensions_npts dc"
  then have z: "secondary_dimensions_npts dc = 0" by simp
  from DomainConcatenation_init_Inr(5) [OF assms] z have "slices_of dc = []"
    by (auto dest: create_slices_zero)
  with last_stop_Inr(2) [OF DomainConcatenation_init_Inr(6) [OF assms]] show False by simp
qed

lemma DomainConcatenation_init_domain:
  assumes "DomainConcatenation_init cs m None = Inr dc"
  shows "domain (node dc) = concat (map domain cs)"
  using get_children_domains_primary [OF DomainConcatenation_init_Inr(1) [OF assms]]
  by (simp add: domain_def)

section \<open>The claims about the domain-aware concatenation\<close>

text \<open>
  Claim C1.  For a domain-aware concatenation constructed from children and a mesh, the
  slice table holds exactly the composite's primary domain names; the ranges of all its
  slices, over all names and repeats, cover exactly \<open>[0, size)\<close>, and the ranges of
  two different entries are disjoint.  Every name holds one slice per repeat and
  occurrence; within repeat \<open>r\<close> the slice of the \<open>k\<close>-th primary domain name
  starts where the slices of the names before it end, and the pattern of one repeat is
  shifted by the total point count for the next, \<open>secondary_dimensions_npts\<close> times.
  The size is the stop of the last slice recorded.
\<close>

theorem C1_composite_slices_partition:
  assumes init: "DomainConcatenation_init cs m None = Inr dc"
  shows "domain (node dc) = concat (map domain cs) \<and>
    0 < secondary_dimensions_npts dc \<and>
    set (map fst (slices_of dc)) = set (domain (node dc)) \<and>
    distinct (map fst (slices_of dc)) \<and>
    (\<forall>d\<in>set (domain (node dc)). npts m d = Some (npts_of m d)) \<and>
    (\<Union>d. \<Union>s\<in>set (getitem_default (slices_of dc) d). slice_range s) = {0..<size_of dc} \<and>
    (\<forall>d i d' i'. (d, i) \<noteq> (d', i') \<and> i < length (getitem_default (slices_of dc) d)
         \<and> i' < length (getitem_default (slices_of dc) d') \<longrightarrow>
       slice_range (getitem_default (slices_of dc) d ! i)
         \<inter> slice_range (getitem_default (slices_of dc) d' ! i') = {}) \<and>
    (\<forall>d. length (getitem_default (slices_of dc) d)
           = secondary_dimensions_npts dc * count_list (domain (node dc)) d) \<and>
    (\<forall>r k. r < secondary_dimensions_npts dc \<and> k < length (domain (node dc)) \<longrightarrow>
       getitem_default (slices_of dc) (domain (node dc) ! k)
         ! (r * count_list (domain (node dc)) (domain (node dc) ! k)
              + count_list (take k (domain (node dc))) (domain (node dc) ! k))
       = (r * sum_list (map (npts_of m) (domain (node dc)))
            + sum_list (map (npts_of m) (take k (domain (node dc)))),
          r * sum_list (map (npts_of m) (domain (node dc)))
            + sum_list (map (npts_of m) (take (Suc k) (domain (node dc)))))) \<and>
    size_of dc = snd (last (getitem_default (slices_of dc) (last (domain (node dc))))) \<and>
    size_of dc = secondary_dimensions_npts dc * sum_list (map (npts_of m) (domain (node dc)))"
proof -
  let ?D = "domain (node dc)" and ?R = "secondary_dimensions_npts dc" and ?S = "slices_of dc"
  note cs = DomainConcatenation_init_Inr(5) [OF init]
  note ls = last_stop_Inr [OF DomainConcatenation_init_Inr(6) [OF init]]
  have R: "0 < ?R" by (rule DomainConcatenation_init_repeats_pos [OF init])
  have sz: "size_of dc = ?R * sum_list (map (npts_of m) ?D)"
    using ls(3) create_slices_last(2) [OF cs R ls(1)] by simp
  have cov: "(\<Union>d. \<Union>s\<in>set (getitem_default ?S d). slice_range s) = {0..<size_of dc}"
    using create_slices_partition(2) [OF cs] by (simp add: tbl_covers_def sz)
  have dj: "\<forall>d i d' i'. (d, i) \<noteq> (d', i') \<and> i < length (getitem_default ?S d)
         \<and> i' < length (getitem_default ?S d') \<longrightarrow>
       slice_range (getitem_default ?S d ! i) \<inter> slice_range (getitem_default ?S d' ! i') = {}"
    using create_slices_partition(3) [OF cs] by (simp add: tbl_disjoint_def)
  have len: "\<forall>d. length (getitem_default ?S d) = ?R * count_list ?D d"
    using create_slices_length [OF cs] by simp
  have lay: "\<forall>r k. r < ?R \<and> k < length ?D \<longrightarrow>
       getitem_default ?S (?D ! k) ! (r * count_list ?D (?D ! k) + count_list (take k ?D) (?D ! k))
       = (r * sum_list (map (npts_of m) ?D) + sum_list (map (npts_of m) (take k ?D)),
          r * sum_list (map (npts_of m) ?D) + sum_list (map (npts_of m) (take (Suc k) ?D)))"
    using create_slices_layout [OF cs] by blast
  have mesh: "\<forall>d\<in>set ?D. npts m d = Some (npts_of m d)"
    using create_slices_mesh [OF cs R] by blast
  show ?thesis
    using DomainConcatenation_init_domain [OF init] R create_slices_keys [OF cs R]
      mesh cov dj len lay ls(3) sz
    by blast
qed

lemma create_slices_repeats_numeral:
  "create_slices_repeats m (numeral k) ds st =
     (case create_slices_domains m ds st of
        Inl e \<Rightarrow> Inl e
      | Inr st' \<Rightarrow> create_slices_repeats m (pred_numeral k) ds st')"
  by (simp add: numeral_eq_Suc)

lemmas init_eval =
  DomainConcatenation_init_def Concatenation_init_def get_children_domains_def
  isinstance_Symbol_def isinstance_Variable_def domain_def level_compatible_def
  get_auxiliary_domain_repeats_def create_slices_def create_slices_repeats_numeral last_stop_def

theorem C1_composite_slices_partition_witness:
  "\<exists>dc. DomainConcatenation_init
      [Symbol Symbol_class ''a'' []
         \<lparr>primary = [''negative electrode''], secondary = [''current collector''],
          tertiary = [], quaternary = []\<rparr>,
       Symbol Symbol_class ''b'' []
         \<lparr>primary = [''separator'', ''positive electrode''], secondary = [''current collector''],
          tertiary = [], quaternary = []\<rparr>]
      \<lparr>npts = map_of [(''negative electrode'', 5), (''separator'', 3), (''positive electrode'', 4)],
       npts_combined = map_of [([''current collector''], 2)]\<rparr>
      None = Inr dc \<and>
    slices_of dc =
      [(''negative electrode'', [(0, 5), (12, 17)]),
       (''separator'', [(5, 8), (17, 20)]),
       (''positive electrode'', [(8, 12), (20, 24)])] \<and>
    size_of dc = 24 \<and>
    (\<Union>d. \<Union>s\<in>set (getitem_default (slices_of dc) d). slice_range s) = {0..<24}"
proof -
  let ?cs = "[Symbol Symbol_class ''a'' []
         \<lparr>primary = [''negative electrode''], secondary = [''current collector''],
          tertiary = [], quaternary = []\<rparr>,
       Symbol Symbol_class ''b'' []
         \<lparr>primary = [''separator'', ''positive electrode''], secondary = [''current collector''],
          tertiary = [], quaternary = []\<rparr>]"
  let ?m = "\<lparr>npts = map_of [(''negative electrode'', 5), (''separator'', 3), (''positive electrode'', 4)],
       npts_combined = map_of [([''current collector''], 2)]\<rparr>"
  have "\<exists>dc. DomainConcatenation_init ?cs ?m None = Inr dc \<and>
    slices_of dc =
      [(''negative electrode'', [(0, 5), (12, 17)]),
       (''separator'', [(5, 8), (17, 20)]),
       (''positive electrode'', [(8, 12), (20, 24)])] \<and>
    size_of dc = 24"
    by (simp add: init_eval)
  then obtain dc where init: "DomainConcatenation_init ?cs ?m None = Inr dc"
    and sl: "slices_of dc =
      [(''negative electrode'', [(0, 5), (12, 17)]),
       (''separator'', [(5, 8), (17, 20)]),
       (''positive electrode'', [(8, 12), (20, 24)])]"
    and sz: "size_of dc = 24" by blast
  from C1_composite_slices_partition [OF init] sz
  have "(\<Union>d. \<Union>s\<in>set (getitem_default (slices_of dc) d). slice_range s) = {0..<24}"
    by simp
  with init sl sz show ?thesis by blast
qed

section \<open>The claims about the simplifying constructors\<close>

lemma drop_None_map_Some: "drop_None (map Some cs) = cs"
  by (induction cs) auto

lemma drop_None_append: "drop_None (xs @ ys) = drop_None xs @ drop_None ys"
  by (induction xs rule: drop_None.induct) auto

text \<open>
  Claim C10.  \<open>concatenation\<close> drops its \<open>None\<close> arguments before anything else (its
  result is that of the call on the remaining children), and when exactly one child
  remains it returns that child itself, not a concatenation node: \<open>concatenation(c)\<close>
  and \<open>concatenation(c, None)\<close> are both \<open>c\<close>.
\<close>

theorem C10_single_child_returned:
  "concatenation env args = concatenation env (map Some (drop_None args)) \<and>
   (drop_None args = [c] \<longrightarrow> concatenation env args = Inr c) \<and>
   concatenation env [Some c] = Inr c \<and>
   concatenation env [Some c, None] = Inr c"
  by (simp add: concatenation_def simplified_concatenation_def drop_None_map_Some)

theorem C10_single_child_returned_witness:
  "drop_None
     [None,
      Some (Symbol Symbol_class ''a'' []
        \<lparr>primary = [''negative electrode''], secondary = [], tertiary = [], quaternary = []\<rparr>),
      None]
   = [Symbol Symbol_class ''a'' []
        \<lparr>primary = [''negative electrode''], secondary = [], tertiary = [], quaternary = []\<rparr>]
   \<and> concatenation
     \<lparr>set_iteration = (\<lambda>xs. xs),
      PrimaryBroadcast = (\<lambda>c d. Inl TypeError),
      FullBroadcast = (\<lambda>c d. Inl TypeError),
      evaluates_to_number = (\<lambda>c. False),
      times_Vector_1 = (\<lambda>c. c),
      simplify_if_constant = (\<lambda>c. c)\<rparr>
     [None,
      Some (Symbol Symbol_class ''a'' []
        \<lparr>primary = [''negative electrode''], secondary = [], tertiary = [], quaternary = []\<rparr>),
      None]
   = Inr (Symbol Symbol_class ''a'' []
        \<lparr>primary = [''negative electrode''], secondary = [], tertiary = [], quaternary = []\<rparr>)"
proof -
  let ?a = "Symbol Symbol_class ''a'' []
        \<lparr>primary = [''negative electrode''], secondary = [], tertiary = [], quaternary = []\<rparr>"
  have one: "drop_None [None, Some ?a, None] = [?a]" by simp
  from C10_single_child_returned [of _ "[None, Some ?a, None]" ?a] one
  show ?thesis by blast
qed

section \<open>The exceptions of the domain-aware constructor\<close>

lemma combine_domains_errors:
  "combine_domains acc cs = Inl e \<Longrightarrow> e = TypeError \<or> e = DomainError"
  by (induction cs arbitrary: acc) (auto split: if_splits)

lemma get_children_domains_errors:
  "get_children_domains cs = Inl e \<Longrightarrow> e = TypeError \<or> e = DomainError \<or> e = IndexError"
  unfolding get_children_domains_def
  by (auto simp: Let_def split: sum.splits list.splits if_splits dest: combine_domains_errors)

lemma auxiliary_domain_repeats_loop_errors:
  "auxiliary_domain_repeats_loop m k ds = Inl e \<Longrightarrow> e = KeyError"
  by (induction ds arbitrary: k) (auto split: if_splits option.splits)

lemma create_slices_errors:
  "get_auxiliary_domain_repeats m sd = Inr n \<Longrightarrow> create_slices m sd n ds = Inl e \<Longrightarrow> e = KeyError"
  unfolding create_slices_def
  by (auto simp: create_slices_repeats_flat split: sum.splits prod.splits
      dest: create_slices_domains_Inl)

lemma create_children_slices_errors:
  "get_auxiliary_domain_repeats m sd = Inr n \<Longrightarrow> create_children_slices m sd n cs = Inl e \<Longrightarrow>
     e = KeyError"
  by (induction cs arbitrary: e) (auto split: sum.splits dest: create_slices_errors)

lemma DomainConcatenation_init_errors:
  assumes "DomainConcatenation_init cs m None = Inl e"
  shows "e = TypeError \<or> e = DomainError \<or> e = IndexError \<or> e = KeyError"
proof (cases "Concatenation_init DomainConcatenation_class cs (Some ''domain_concatenation'') True")
  case (Inl e')
  with assms have "e = e'" by (simp add: DomainConcatenation_init_def)
  with Inl show ?thesis
    by (auto simp: Concatenation_init_def split: if_splits sum.splits
        dest: get_children_domains_errors)
next
  case (Inr self)
  show ?thesis
  proof (cases "get_auxiliary_domain_repeats m (domains self)")
    case (Inl e')
    with assms Inr have "e = e'" by (simp add: DomainConcatenation_init_def)
    with Inl auxiliary_domain_repeats_loop_errors [of m 1 _ e'] show ?thesis
      unfolding get_auxiliary_domain_repeats_def by blast
  next
    case rep: (Inr n)
    from assms Inr rep show ?thesis
      by (auto simp: DomainConcatenation_init_def last_stop_def
          split: sum.splits if_splits
          dest: create_slices_errors [OF rep] create_children_slices_errors [OF rep])
  qed
qed

text \<open>
  Claim C3, the code at the failing input.  The second child has no secondary domain, so
  its own auxiliary domains give the repeat count 1; the composite's give 2.  The
  constructor returns a node: \<open>create_slices\<close> reads the repeat count from the domains
  of \<open>self\<close> for every child, so the comparison that guards the \<open>ValueError\<close> is
  between two equal numbers.
\<close>

theorem C3_repeat_mismatch_not_detected:
  "get_auxiliary_domain_repeats
      \<lparr>npts = map_of [(''negative electrode'', 5), (''separator'', 3)],
       npts_combined = map_of [([''current collector''], 2)]\<rparr>
      (domains (Symbol Symbol_class ''b'' []
         \<lparr>primary = [''separator''], secondary = [], tertiary = [], quaternary = []\<rparr>))
    = Inr 1 \<and>
   (\<exists>dc. DomainConcatenation_init
      [Symbol Symbol_class ''a'' []
         \<lparr>primary = [''negative electrode''], secondary = [''current collector''],
          tertiary = [], quaternary = []\<rparr>,
       Symbol Symbol_class ''b'' []
         \<lparr>primary = [''separator''], secondary = [], tertiary = [], quaternary = []\<rparr>]
      \<lparr>npts = map_of [(''negative electrode'', 5), (''separator'', 3)],
       npts_combined = map_of [([''current collector''], 2)]\<rparr>
      None = Inr dc \<and>
    secondary_dimensions_npts dc = 2 \<and>
    children_slices dc =
      [[(''negative electrode'', [(0, 5), (5, 10)])], [(''separator'', [(0, 3), (3, 6)])]])"
  by (simp add: init_eval)

section \<open>Properties of the Jacobian\<close>












section \<open>Properties of the state-vector collapse\<close>







lemma indicator_sum_positive:
  assumes "sum_list (map (\<lambda>c. indicator_at c i) cs) = 1"
  shows "\<exists>c\<in>set cs. i < length (evaluation_array (cls c))"
proof (rule ccontr)
  assume "\<not> (\<exists>c\<in>set cs. i < length (evaluation_array (cls c)))"
  then have "\<forall>c\<in>set cs. indicator_at c i = 0" by (auto simp: indicator_at_def)
  then have "sum_list (map (\<lambda>c. indicator_at c i) cs) = 0" by (induction cs) auto
  with assms show False by simp
qed






section \<open>Properties of the merged name\<close>

lemma substrings_mem:
  "x \<in> set (substrings s) \<longleftrightarrow>
     (\<exists>i j. i \<le> j \<and> j < length s \<and> x = take (j + 1 - i) (drop i s))"
proof -
  define f where "f = (\<lambda>i j. take (j + 1 - i) (drop i s))"
  have "substrings s = concat (map (\<lambda>i. map (f i) [i..<length s]) [0..<length s])"
    by (simp add: substrings_def f_def)
  then have "x \<in> set (substrings s) \<longleftrightarrow> (\<exists>i\<in>{0..<length s}. x \<in> f i ` {i..<length s})"
    by simp
  also have "\<dots> \<longleftrightarrow> (\<exists>i j. i \<le> j \<and> j < length s \<and> x = f i j)"
  proof
    assume "\<exists>i\<in>{0..<length s}. x \<in> f i ` {i..<length s}"
    then obtain i j where "j \<in> {i..<length s}" "x = f i j" by blast
    then show "\<exists>i j. i \<le> j \<and> j < length s \<and> x = f i j" by auto
  next
    assume "\<exists>i j. i \<le> j \<and> j < length s \<and> x = f i j"
    then obtain i j where ij: "i \<le> j" "j < length s" "x = f i j" by blast
    then have "i \<in> {0..<length s}" "j \<in> {i..<length s}" by auto
    with ij(3) show "\<exists>i\<in>{0..<length s}. x \<in> f i ` {i..<length s}" by blast
  qed
  finally show ?thesis by (simp add: f_def)
qed

lemma substrings_iff:
  "x \<in> set (substrings s) \<longleftrightarrow>
     (\<exists>i k. 0 < k \<and> i + k \<le> length s \<and> x = take k (drop i s))"
proof
  assume "x \<in> set (substrings s)"
  then obtain i j where ij: "i \<le> j" "j < length s"
    and x: "x = take (j + 1 - i) (drop i s)"
    unfolding substrings_mem by blast
  have "0 < j + 1 - i" "i + (j + 1 - i) \<le> length s" using ij by auto
  with x show "\<exists>i k. 0 < k \<and> i + k \<le> length s \<and> x = take k (drop i s)"
    by blast
next
  assume "\<exists>i k. 0 < k \<and> i + k \<le> length s \<and> x = take k (drop i s)"
  then obtain i k where ik: "0 < k" "i + k \<le> length s"
    and x: "x = take k (drop i s)" by blast
  have "i \<le> i + k - 1" "i + k - 1 < length s" "i + k - 1 + 1 - i = k" using ik by auto
  with x show "x \<in> set (substrings s)" unfolding substrings_mem by metis
qed

lemma substrings_sublist: "x \<in> set (substrings s) \<longleftrightarrow> x \<noteq> [] \<and> sublist x s"
proof
  assume "x \<in> set (substrings s)"
  then obtain i k where ik: "0 < k" "i + k \<le> length s"
    and x: "x = take k (drop i s)" unfolding substrings_iff by blast
  have "drop i s = x @ drop k (drop i s)" unfolding x by (rule append_take_drop_id [symmetric])
  then have "s = take i s @ x @ drop k (drop i s)" by (metis append_take_drop_id)
  then have "sublist x s" unfolding sublist_def by blast
  moreover have "x \<noteq> []" using ik x by auto
  ultimately show "x \<noteq> [] \<and> sublist x s" by simp
next
  assume a: "x \<noteq> [] \<and> sublist x s"
  then obtain p q where s: "s = p @ x @ q" unfolding sublist_def by blast
  have "0 < length x" "length p + length x \<le> length s"
    "x = take (length x) (drop (length p) s)"
    using a s by auto
  then show "x \<in> set (substrings s)" unfolding substrings_iff by blast
qed

lemma sublist_of_window:
  assumes "i \<le> a" "a + n \<le> i + k"
  shows "sublist (take n (drop a s)) (take k (drop i s))"
proof -
  have "drop (a - i) (take k (drop i s)) = take (k - (a - i)) (drop a s)"
    using assms by (simp add: drop_take)
  then have "take n (drop (a - i) (take k (drop i s))) = take n (drop a s)"
    using assms by (simp add: min_def)
  moreover have "sublist (drop (a - i) (take k (drop i s))) (take k (drop i s))"
    by (rule sublist_drop)
  moreover have "sublist (take n (drop (a - i) (take k (drop i s))))
      (drop (a - i) (take k (drop i s)))"
    by (rule sublist_take)
  ultimately show ?thesis by (metis sublist_order.order_trans)
qed


lemma max_len_mem: "max_len b xs \<in> set (b # xs)"
  by (induction xs arbitrary: b) auto

lemma max_len_initial: "length b \<le> length (max_len b xs)"
proof (induction xs arbitrary: b)
  case Nil
  show ?case by simp
next
  case (Cons x xs)
  show ?case
  proof (cases "length b < length x")
    case True
    with Cons.IH [of x] show ?thesis by simp
  next
    case False
    with Cons.IH [of b] show ?thesis by simp
  qed
qed

lemma max_len_greatest: "y \<in> set (b # xs) \<Longrightarrow> length y \<le> length (max_len b xs)"
proof (induction xs arbitrary: b)
  case Nil
  then show ?case by simp
next
  case (Cons x xs)
  show ?case
  proof (cases "length b < length x")
    case True
    have "length y \<le> length (max_len x xs)"
    proof (cases "y = b")
      case True
      with \<open>length b < length x\<close> max_len_initial [of x xs] show ?thesis by simp
    next
      case False
      with Cons.prems have "y \<in> set (x # xs)" by auto
      then show ?thesis by (rule Cons.IH)
    qed
    with True show ?thesis by simp
  next
    case False
    have "length y \<le> length (max_len b xs)"
    proof (cases "y = x")
      case True
      with False max_len_initial [of b xs] show ?thesis by simp
    next
      case False
      with Cons.prems have "y \<in> set (b # xs)" by auto
      then show ?thesis by (rule Cons.IH)
    qed
    with False show ?thesis by simp
  qed
qed

text \<open>What \<open>intersect\<close> returns, whatever the iteration order of the set.\<close>

lemma intersect_longest:
  assumes it: "\<forall>xs. set (iteration xs) = set xs"
    and x: "x \<noteq> []" "sublist x s1" "sublist x s2"
    and longest: "\<And>y. y \<noteq> [] \<Longrightarrow> sublist y s1 \<Longrightarrow> sublist y s2 \<Longrightarrow> length x \<le> length y \<Longrightarrow> y = x"
  shows "intersect iteration s1 s2 = rstrip (lstrip x)"
proof -
  let ?L = "filter (\<lambda>x. x \<in> set (substrings s2)) (remdups (substrings s1))"
  have L: "set ?L = {y. y \<noteq> [] \<and> sublist y s1 \<and> sublist y s2}"
    by (auto simp: substrings_sublist)
  have xL: "x \<in> set ?L" using x unfolding L by simp
  then have ne: "?L \<noteq> []" by (metis empty_iff list.set(1))
  from xL it have "x \<in> set (iteration ?L)" by simp
  then obtain b bs where bs: "iteration ?L = b # bs" by (cases "iteration ?L") auto
  have mem: "max_len b bs \<in> set ?L" using max_len_mem [of b bs] it bs by metis
  have "length x \<le> length (max_len b bs)"
    by (rule max_len_greatest) (use xL it bs in metis)
  with mem longest have "max_len b bs = x" unfolding L by blast
  with ne bs show ?thesis by (simp add: intersect_def Let_def)
qed

lemma intersect_none:
  assumes "\<And>y. y \<noteq> [] \<Longrightarrow> sublist y s1 \<Longrightarrow> \<not> sublist y s2"
  shows "intersect iteration s1 s2 = []"
proof -
  have "filter (\<lambda>x. x \<in> set (substrings s2)) (remdups (substrings s1)) = []"
    using assms by (auto simp: filter_empty_conv substrings_sublist)
  then show ?thesis by (simp add: intersect_def)
qed

lemma strip_no_whitespace:
  "x \<noteq> [] \<Longrightarrow> \<not> is_whitespace (hd x) \<Longrightarrow> \<not> is_whitespace (last x) \<Longrightarrow> rstrip (lstrip x) = x"
proof -
  assume x: "x \<noteq> []" and h: "\<not> is_whitespace (hd x)" and l: "\<not> is_whitespace (last x)"
  have a: "lstrip x = x" using h by (simp add: lstrip_def dropWhile_eq_self_iff)
  have "hd (rev x) = last x" using x by (simp add: hd_rev)
  then have "dropWhile is_whitespace (rev x) = rev x" using l by (simp add: dropWhile_eq_self_iff)
  then show ?thesis by (simp add: a rstrip_def)
qed



lemma example_intersect:
  assumes it: "\<forall>xs. set (iteration xs) = set xs"
  shows "intersect iteration ''Negative particle concentration'' ''Positive particle concentration''
     = ''tive particle concentration''"
proof -
  let ?s1 = "''Negative particle concentration''" and ?s2 = "''Positive particle concentration''"
  let ?x = "''tive particle concentration''"
  have x1: "sublist ?x ?s1" unfolding sublist_def
    by (rule exI [of _ "''Nega''"], rule exI [of _ "[]"]) simp
  have x2: "sublist ?x ?s2" unfolding sublist_def
    by (rule exI [of _ "''Posi''"], rule exI [of _ "[]"]) simp
  have no: "\<not> sublist ''ativ'' ?s2" by (simp add: sublist_Cons_right)
  have longest: "y = ?x" if y: "y \<noteq> []" "sublist y ?s1" "sublist y ?s2" "length ?x \<le> length y" for y
  proof -
    from y(1,2) have "y \<in> set (substrings ?s1)" by (simp add: substrings_sublist)
    then obtain i k where ik: "0 < k" "i + k \<le> length ?s1"
      and yk: "y = take k (drop i ?s1)" unfolding substrings_iff by blast
    have k: "27 \<le> k" using y(4) yk ik by simp
    have i4: "i \<le> 4" using ik k by simp
    show ?thesis
    proof (cases "i = 4")
      case True
      with ik k have "k = 27" by simp
      with True yk show ?thesis by simp
    next
      case False
      with i4 have i3: "i \<le> 3" by simp
      have "sublist (take 4 (drop 3 ?s1)) (take k (drop i ?s1))"
        by (rule sublist_of_window) (use i3 k in auto)
      then have "sublist ''ativ'' y" by (simp add: yk)
      from this y(3) have "sublist ''ativ'' ?s2" by (rule sublist_order.order_trans)
      with no show ?thesis by simp
    qed
  qed
  have "intersect iteration ?s1 ?s2 = rstrip (lstrip ?x)"
    by (rule intersect_longest [OF it _ x1 x2 longest]) simp_all
  also have "\<dots> = ?x"
    by (rule strip_no_whitespace) (simp_all add: is_whitespace_def)
  finally show ?thesis .
qed

lemma capitalize_t: "capitalize CHR ''t'' = CHR ''T''"
  by code_simp



lemma intersect_all_two: "intersect_all iteration [n0, n1] = Inr (intersect iteration n0 n1)"
  by (simp add: intersect_all_def)

lemma ConcatenationVariable_name:
  assumes "ConcatenationVariable iteration cs = Inr cv"
  shows "\<exists>nm. intersect_all iteration (map name cs) = Inr nm \<and>
           name cv = (case merged_name nm of None \<Rightarrow> ''concatenation'' | Some n \<Rightarrow> n)"
  using assms unfolding ConcatenationVariable_def Concatenation_init_def
  by (auto split: if_splits sum.splits)

lemma ConcatenationVariable_two:
  assumes v: "isinstance_Variable c0" "isinstance_Variable c1"
    and eq: "scale (cls c1) = scale (cls c0)" "reference (cls c1) = reference (cls c0)"
      "bounds (cls c1) = bounds (cls c0)"
    and d: "get_children_domains [c0, c1] = Inr d"
  shows "\<exists>cv. ConcatenationVariable iteration [c0, c1] = Inr cv \<and>
           name cv = (case merged_name (intersect iteration (name c0) (name c1)) of
                          None \<Rightarrow> ''concatenation'' | Some n \<Rightarrow> n) \<and>
           children cv = [c0, c1] \<and> domains cv = d"
proof -
  have s: "isinstance_Symbol c0" "isinstance_Symbol c1"
    using v by (auto simp: isinstance_Variable_def isinstance_Symbol_def)
  show ?thesis
    using v eq d s
    by (simp add: ConcatenationVariable_def Concatenation_init_def intersect_all_two)
qed

lemma merged_name_example:
  "merged_name ''tive particle concentration'' = Some ''Tive particle concentration''"
  by (simp add: merged_name_def capitalize_t)

lemma merged_name_single: "length nm = 1 \<Longrightarrow> merged_name nm = Some nm"
  by (simp add: merged_name_def)

lemma single_character_intersect:
  assumes it: "\<forall>xs. set (iteration xs) = set xs"
  shows "intersect iteration ''xa'' ''ya'' = ''a''"
proof -
  have s: "set (substrings ''xa'') = {''x'', ''xa'', ''a''}"
    by (simp add: substrings_def upt_rec)
  have longest: "y = ''a''"
    if y: "y \<noteq> []" "sublist y ''xa''" "sublist y ''ya''" "length ''a'' \<le> length y" for y
  proof -
    from y(1,2) have "y \<in> set (substrings ''xa'')" by (simp add: substrings_sublist)
    then have "y = ''x'' \<or> y = ''xa'' \<or> y = ''a''" unfolding s by simp
    moreover have "\<not> sublist ''x'' ''ya''" "\<not> sublist ''xa'' ''ya''"
      by (simp_all add: sublist_Cons_right)
    ultimately show ?thesis using y(3) by auto
  qed
  have "intersect iteration ''xa'' ''ya'' = rstrip (lstrip ''a'')"
    by (rule intersect_longest [OF it _ _ _ longest]) (simp_all add: sublist_Cons_right)
  also have "\<dots> = ''a''"
    by (rule strip_no_whitespace) (simp_all add: is_whitespace_def)
  finally show ?thesis .
qed

text \<open>
  Claim C8, as amended.  Whatever the iteration order of the set of common substrings:
  the longest common substring of "Negative particle concentration" and "Positive
  particle concentration" is "tive particle concentration", and a variable-aware
  concatenation of two variables with these names is named "Tive particle
  concentration" (that substring, trimmed, its first character capitalised).  A merged
  name of exactly one character is kept as it is, not capitalised.
\<close>

theorem C8_merged_name:
  assumes it: "\<forall>xs. set (iteration xs) = set xs"
  shows "intersect iteration ''Negative particle concentration'' ''Positive particle concentration''
           = ''tive particle concentration'' \<and>
         (name c0 = ''Negative particle concentration'' \<and>
          name c1 = ''Positive particle concentration'' \<and>
          ConcatenationVariable iteration [c0, c1] = Inr cv
          \<longrightarrow> name cv = ''Tive particle concentration'') \<and>
         (ConcatenationVariable iteration cs = Inr cv' \<and>
          intersect_all iteration (map name cs) = Inr nm \<and> length nm = 1
          \<longrightarrow> name cv' = nm)"
proof (intro conjI impI)
  show "intersect iteration ''Negative particle concentration'' ''Positive particle concentration''
           = ''tive particle concentration''"
    by (rule example_intersect [OF it])
next
  assume a: "name c0 = ''Negative particle concentration'' \<and>
          name c1 = ''Positive particle concentration'' \<and>
          ConcatenationVariable iteration [c0, c1] = Inr cv"
  from ConcatenationVariable_name [of iteration "[c0, c1]" cv] a
  have "name cv = (case merged_name (intersect iteration
           ''Negative particle concentration'' ''Positive particle concentration'') of
         None \<Rightarrow> ''concatenation'' | Some n \<Rightarrow> n)"
    by (simp add: intersect_all_two)
  then show "name cv = ''Tive particle concentration''"
    by (simp only: example_intersect [OF it] merged_name_example option.case)
next
  assume a: "ConcatenationVariable iteration cs = Inr cv' \<and>
          intersect_all iteration (map name cs) = Inr nm \<and> length nm = 1"
  with ConcatenationVariable_name [of iteration cs cv']
  show "name cv' = nm" by (auto simp: merged_name_single)
qed

lemma example_variables_validated:
  "get_children_domains
     [Symbol (Variable_class 1 0 (0, 1) ''c_n'') n0 []
        \<lparr>primary = [''negative particle''], secondary = [], tertiary = [], quaternary = []\<rparr>,
      Symbol (Variable_class 1 0 (0, 1) ''c_p'') n1 []
        \<lparr>primary = [''positive particle''], secondary = [], tertiary = [], quaternary = []\<rparr>]
   = Inr \<lparr>primary = [''negative particle'', ''positive particle''],
          secondary = [], tertiary = [], quaternary = []\<rparr>"
  unfolding get_children_domains_Inr_iff disjoint_Cons
  by (simp add: isinstance_Symbol_def domain_def level_compatible_def)

theorem C8_merged_name_witness:
  "(\<exists>cv. ConcatenationVariable (\<lambda>xs. xs)
      [Symbol (Variable_class 1 0 (0, 1) ''c_n'') ''Negative particle concentration'' []
         \<lparr>primary = [''negative particle''], secondary = [], tertiary = [], quaternary = []\<rparr>,
       Symbol (Variable_class 1 0 (0, 1) ''c_p'') ''Positive particle concentration'' []
         \<lparr>primary = [''positive particle''], secondary = [], tertiary = [], quaternary = []\<rparr>]
      = Inr cv \<and> name cv = ''Tive particle concentration'') \<and>
   (\<exists>cv. ConcatenationVariable (\<lambda>xs. xs)
      [Symbol (Variable_class 1 0 (0, 1) ''c_n'') ''xa'' []
         \<lparr>primary = [''negative particle''], secondary = [], tertiary = [], quaternary = []\<rparr>,
       Symbol (Variable_class 1 0 (0, 1) ''c_p'') ''ya'' []
         \<lparr>primary = [''positive particle''], secondary = [], tertiary = [], quaternary = []\<rparr>]
      = Inr cv \<and> name cv = ''a'')"
proof -
  let ?v = "\<lambda>n0 n1.
      [Symbol (Variable_class 1 0 (0, 1) ''c_n'') n0 []
         \<lparr>primary = [''negative particle''], secondary = [], tertiary = [], quaternary = []\<rparr>,
       Symbol (Variable_class 1 0 (0, 1) ''c_p'') n1 []
         \<lparr>primary = [''positive particle''], secondary = [], tertiary = [], quaternary = []\<rparr>]"
  have it: "\<forall>xs::string list. set ((\<lambda>xs. xs) xs) = set xs" by simp
  have ok: "\<exists>cv. ConcatenationVariable (\<lambda>xs. xs) (?v n0 n1) = Inr cv" for n0 n1
  proof -
    have "\<exists>cv. ConcatenationVariable (\<lambda>xs. xs) (?v n0 n1) = Inr cv \<and>
           name cv = (case merged_name (intersect (\<lambda>xs. xs)
                (name (hd (?v n0 n1))) (name (hd (tl (?v n0 n1))))) of
                          None \<Rightarrow> ''concatenation'' | Some n \<Rightarrow> n) \<and>
           children cv = ?v n0 n1 \<and>
           domains cv = \<lparr>primary = [''negative particle'', ''positive particle''],
             secondary = [], tertiary = [], quaternary = []\<rparr>"
      unfolding list.sel
      by (rule ConcatenationVariable_two [OF _ _ _ _ _ example_variables_validated])
         (simp_all add: isinstance_Variable_def)
    then show ?thesis by blast
  qed
  from ok obtain cv where cv:
    "ConcatenationVariable (\<lambda>xs. xs)
       (?v ''Negative particle concentration'' ''Positive particle concentration'') = Inr cv"
    by blast
  from C8_merged_name [OF it, of
      "hd (?v ''Negative particle concentration'' ''Positive particle concentration'')"
      "hd (tl (?v ''Negative particle concentration'' ''Positive particle concentration''))" cv] cv
  have A: "name cv = ''Tive particle concentration''" by simp
  from ok obtain cv' where cv':
    "ConcatenationVariable (\<lambda>xs. xs) (?v ''xa'' ''ya'') = Inr cv'" by blast
  have nm: "intersect_all (\<lambda>xs. xs) (map name (?v ''xa'' ''ya'')) = Inr ''a''"
    using single_character_intersect [OF it] by (simp add: intersect_all_two)
  from C8_merged_name [OF it, of _ _ _ "?v ''xa'' ''ya''" cv' "''a''"] cv' nm
  have B: "name cv' = ''a''" by simp
  from cv A cv' B show ?thesis by blast
qed

text \<open>
  The claim as first stated fails: the merged name of the two example variables is not
  "Particle concentration", and a merged name of one character is not capitalised.
\<close>

theorem C8_counterexample:
  "(\<exists>cv. ConcatenationVariable (\<lambda>xs. xs)
      [Symbol (Variable_class 1 0 (0, 1) ''c_n'') ''Negative particle concentration'' []
         \<lparr>primary = [''negative particle''], secondary = [], tertiary = [], quaternary = []\<rparr>,
       Symbol (Variable_class 1 0 (0, 1) ''c_p'') ''Positive particle concentration'' []
         \<lparr>primary = [''positive particle''], secondary = [], tertiary = [], quaternary = []\<rparr>]
      = Inr cv \<and> name cv \<noteq> ''Particle concentration'') \<and>
   (\<exists>cv. ConcatenationVariable (\<lambda>xs. xs)
      [Symbol (Variable_class 1 0 (0, 1) ''c_n'') ''xa'' []
         \<lparr>primary = [''negative particle''], secondary = [], tertiary = [], quaternary = []\<rparr>,
       Symbol (Variable_class 1 0 (0, 1) ''c_p'') ''ya'' []
         \<lparr>primary = [''positive particle''], secondary = [], tertiary = [], quaternary = []\<rparr>]
      = Inr cv \<and> name cv \<noteq> ''A'')"
proof -
  have it: "\<forall>xs::string list. set ((\<lambda>xs. xs) xs) = set xs" by simp
  have two: "\<exists>cv. ConcatenationVariable (\<lambda>xs. xs)
      [Symbol (Variable_class 1 0 (0, 1) ''c_n'') n0 []
         \<lparr>primary = [''negative particle''], secondary = [], tertiary = [], quaternary = []\<rparr>,
       Symbol (Variable_class 1 0 (0, 1) ''c_p'') n1 []
         \<lparr>primary = [''positive particle''], secondary = [], tertiary = [], quaternary = []\<rparr>]
      = Inr cv \<and>
      name cv = (case merged_name (intersect (\<lambda>xs. xs) n0 n1) of
                   None \<Rightarrow> ''concatenation'' | Some n \<Rightarrow> n)" for n0 n1
  proof -
    let ?a = "Symbol (Variable_class 1 0 (0, 1) ''c_n'') n0 []
         \<lparr>primary = [''negative particle''], secondary = [], tertiary = [], quaternary = []\<rparr>"
    let ?b = "Symbol (Variable_class 1 0 (0, 1) ''c_p'') n1 []
         \<lparr>primary = [''positive particle''], secondary = [], tertiary = [], quaternary = []\<rparr>"
    have "\<exists>cv. ConcatenationVariable (\<lambda>xs. xs) [?a, ?b] = Inr cv \<and>
           name cv = (case merged_name (intersect (\<lambda>xs. xs) (name ?a) (name ?b)) of
                          None \<Rightarrow> ''concatenation'' | Some n \<Rightarrow> n) \<and>
           children cv = [?a, ?b] \<and>
           domains cv = \<lparr>primary = [''negative particle'', ''positive particle''],
             secondary = [], tertiary = [], quaternary = []\<rparr>"
      by (rule ConcatenationVariable_two [OF _ _ _ _ _ example_variables_validated])
         (simp_all add: isinstance_Variable_def)
    then show ?thesis unfolding symbol.sel by blast
  qed
  have A: "(case merged_name (intersect (\<lambda>xs. xs)
              ''Negative particle concentration'' ''Positive particle concentration'') of
                   None \<Rightarrow> ''concatenation'' | Some n \<Rightarrow> n) \<noteq> ''Particle concentration''"
    by (simp only: example_intersect [OF it] merged_name_example option.case) simp
  have B: "(case merged_name (intersect (\<lambda>xs. xs) ''xa'' ''ya'') of
                   None \<Rightarrow> ''concatenation'' | Some n \<Rightarrow> n) \<noteq> ''A''"
    by (simp only: single_character_intersect [OF it]) (simp add: merged_name_def)
  from two [of "''Negative particle concentration''" "''Positive particle concentration''"] A
    two [of "''xa''" "''ya''"] B
  show ?thesis by metis
qed

section \<open>Properties of the simplifying constructors\<close>

lemma Concatenation_init_children:
  "Concatenation_init k cs nm chk = Inr r \<Longrightarrow> children r = cs"
  unfolding Concatenation_init_def by (auto split: if_splits sum.splits)

lemma ConcatenationVariable_children:
  "ConcatenationVariable iteration cs = Inr r \<Longrightarrow> children r = cs"
  unfolding ConcatenationVariable_def
  by (auto split: if_splits sum.splits dest: Concatenation_init_children)

lemma simplified_concatenation_children:
  assumes two: "2 \<le> length (drop_None args)"
    and nb: "\<not> list_all (\<lambda>child. isinstance_Broadcast child
                \<and> child_of child = child_of (hd (drop_None args))) (drop_None args)"
    and r: "simplified_concatenation env args = Inr r"
  shows "children r = drop_None args"
proof -
  have len: "(length (drop_None args) = 0) = False" "(length (drop_None args) = 1) = False"
    using two by auto
  note unfolded = r [unfolded simplified_concatenation_def Let_def len if_False]
  show ?thesis
  proof (cases "list_all isinstance_Variable (drop_None args)")
    case True
    from unfolded have "ConcatenationVariable (set_iteration env) (drop_None args) = Inr r"
      by (simp only: True if_True)
    then show ?thesis by (rule ConcatenationVariable_children)
  next
    case False
    from unfolded
    have "(case Concatenation_init Concatenation_class (drop_None args) None True of
             Inl e \<Rightarrow> Inl e | Inr conc \<Rightarrow> Inr conc) = Inr r"
      by (simp only: False nb if_False)
    then have "Concatenation_init Concatenation_class (drop_None args) None True = Inr r"
      by (simp split: sum.splits)
    then show ?thesis by (rule Concatenation_init_children)
  qed
qed

lemma simplified_concatenation_drop_None:
  "simplified_concatenation env (map Some (drop_None args)) = simplified_concatenation env args"
  by (simp add: simplified_concatenation_def drop_None_map_Some)

lemma flatten_no_NumpyConcatenation:
  "\<forall>c\<in>set cs. \<not> isinstance_NumpyConcatenation c \<Longrightarrow>
     concat (map (\<lambda>child. if isinstance_NumpyConcatenation child then children child else [child]) cs)
       = cs"
  by (induction cs) auto

lemma NumpyConcatenation_Inr:
  "NumpyConcatenation env cs = Inr n \<Longrightarrow>
     n = Symbol NumpyConcatenation_class ''numpy_concatenation''
           (map (\<lambda>child. if evaluates_to_number env child then times_Vector_1 env child else child) cs)
           \<lparr>primary = [], secondary = [], tertiary = [], quaternary = []\<rparr>"
  unfolding NumpyConcatenation_def Concatenation_init_def
  by (auto split: if_splits)

lemma NumpyConcatenation_again:
  assumes n: "NumpyConcatenation env cs = Inr n"
    and ch: "\<forall>c\<in>set (children n). isinstance_Symbol c \<and> \<not> evaluates_to_number env c"
  shows "NumpyConcatenation env (children n) = Inr n"
proof -
  have "map (\<lambda>child. if evaluates_to_number env child then times_Vector_1 env child else child)
          (children n) = children n"
    using ch by (induction "children n") (auto simp: map_idI)
  moreover have "\<not> (\<exists>child\<in>set (children n). \<not> isinstance_Symbol child)" using ch by blast
  ultimately show ?thesis
    using NumpyConcatenation_Inr [OF n]
    by (simp add: NumpyConcatenation_def Concatenation_init_def isinstance_Variable_def list_all_iff)
qed

text \<open>
  Claim C9, as amended.  \<open>concatenation\<close> applied to its own result as the only
  argument returns that result.  Re-applied to the children of its result it returns a
  structurally equal node whenever the first call kept at least two children and did not
  collapse them to a broadcast.  \<open>numpy_concatenation\<close> re-applied to the children of
  its result returns a structurally equal node whenever that result is still a
  \<open>NumpyConcatenation\<close> (constant folding returns its argument or a node of another
  class) and none of its children is a \<open>NumpyConcatenation\<close> or evaluates to a number.
\<close>

theorem C9_simplification_idempotent:
  "(concatenation env args = Inr r \<longrightarrow> concatenation env [Some r] = Inr r) \<and>
   (2 \<le> length (drop_None args) \<and>
    \<not> list_all (\<lambda>child. isinstance_Broadcast child
          \<and> child_of child = child_of (hd (drop_None args))) (drop_None args) \<and>
    concatenation env args = Inr r
    \<longrightarrow> children r = drop_None args \<and> concatenation env (map Some (children r)) = Inr r) \<and>
   ((\<forall>s. isinstance_NumpyConcatenation (simplify_if_constant env s)
          \<longrightarrow> simplify_if_constant env s = s) \<and>
    numpy_concatenation env cs = Inr n \<and>
    isinstance_NumpyConcatenation n \<and>
    (\<forall>c\<in>set (children n). isinstance_Symbol c \<and> \<not> isinstance_NumpyConcatenation c
         \<and> \<not> evaluates_to_number env c)
    \<longrightarrow> numpy_concatenation env (children n) = Inr n)"
proof (intro conjI impI)
  show "concatenation env [Some r] = Inr r"
    by (simp add: concatenation_def simplified_concatenation_def)
next
  assume a: "2 \<le> length (drop_None args) \<and>
    \<not> list_all (\<lambda>child. isinstance_Broadcast child
          \<and> child_of child = child_of (hd (drop_None args))) (drop_None args) \<and>
    concatenation env args = Inr r"
  then have ch: "children r = drop_None args"
    using simplified_concatenation_children [of args env r] by (simp add: concatenation_def)
  then show "children r = drop_None args" .
  from a show "concatenation env (map Some (children r)) = Inr r"
    unfolding ch concatenation_def simplified_concatenation_drop_None by simp
next
  assume a: "(\<forall>s. isinstance_NumpyConcatenation (simplify_if_constant env s)
          \<longrightarrow> simplify_if_constant env s = s) \<and>
    numpy_concatenation env cs = Inr n \<and>
    isinstance_NumpyConcatenation n \<and>
    (\<forall>c\<in>set (children n). isinstance_Symbol c \<and> \<not> isinstance_NumpyConcatenation c
         \<and> \<not> evaluates_to_number env c)"
  let ?new = "concat (map (\<lambda>child. if isinstance_NumpyConcatenation child then children child
                                 else [child]) cs)"
  from a obtain n0 where n0: "NumpyConcatenation env ?new = Inr n0"
    and n: "n = simplify_if_constant env n0"
    by (auto simp: numpy_concatenation_def simplified_numpy_concatenation_def Let_def
        split: sum.splits)
  from a n have eq: "n = n0" by metis
  with a n have fixed: "simplify_if_constant env n = n" by simp
  have again: "NumpyConcatenation env (children n) = Inr n"
    using NumpyConcatenation_again [OF n0] a eq by blast
  have flat: "concat (map (\<lambda>child. if isinstance_NumpyConcatenation child then children child
                                 else [child]) (children n)) = children n"
    by (rule flatten_no_NumpyConcatenation) (use a in blast)
  show "numpy_concatenation env (children n) = Inr n"
    by (simp add: numpy_concatenation_def simplified_numpy_concatenation_def flat again fixed)
qed

theorem C9_simplification_idempotent_witness:
  "(\<exists>r. concatenation
      \<lparr>set_iteration = (\<lambda>xs. xs),
       PrimaryBroadcast = (\<lambda>c d. Inl TypeError),
       FullBroadcast = (\<lambda>c d. Inl TypeError),
       evaluates_to_number = (\<lambda>c. False),
       times_Vector_1 = (\<lambda>c. c),
       simplify_if_constant = (\<lambda>c. c)\<rparr>
      [Some (Symbol Symbol_class ''a'' []
         \<lparr>primary = [''negative electrode''], secondary = [], tertiary = [], quaternary = []\<rparr>),
       None,
       Some (Symbol Symbol_class ''b'' []
         \<lparr>primary = [''separator''], secondary = [], tertiary = [], quaternary = []\<rparr>)]
      = Inr r \<and>
    concatenation
      \<lparr>set_iteration = (\<lambda>xs. xs),
       PrimaryBroadcast = (\<lambda>c d. Inl TypeError),
       FullBroadcast = (\<lambda>c d. Inl TypeError),
       evaluates_to_number = (\<lambda>c. False),
       times_Vector_1 = (\<lambda>c. c),
       simplify_if_constant = (\<lambda>c. c)\<rparr>
      (map Some (children r)) = Inr r) \<and>
   (\<exists>n. numpy_concatenation
      \<lparr>set_iteration = (\<lambda>xs. xs),
       PrimaryBroadcast = (\<lambda>c d. Inl TypeError),
       FullBroadcast = (\<lambda>c d. Inl TypeError),
       evaluates_to_number = (\<lambda>c. False),
       times_Vector_1 = (\<lambda>c. c),
       simplify_if_constant = (\<lambda>c. c)\<rparr>
      [Symbol Symbol_class ''a'' []
         \<lparr>primary = [''negative electrode''], secondary = [], tertiary = [], quaternary = []\<rparr>,
       Symbol Symbol_class ''b'' []
         \<lparr>primary = [''separator''], secondary = [], tertiary = [], quaternary = []\<rparr>]
      = Inr n \<and>
    numpy_concatenation
      \<lparr>set_iteration = (\<lambda>xs. xs),
       PrimaryBroadcast = (\<lambda>c d. Inl TypeError),
       FullBroadcast = (\<lambda>c d. Inl TypeError),
       evaluates_to_number = (\<lambda>c. False),
       times_Vector_1 = (\<lambda>c. c),
       simplify_if_constant = (\<lambda>c. c)\<rparr>
      (children n) = Inr n)"
proof -
  let ?env = "\<lparr>set_iteration = (\<lambda>xs. xs),
       PrimaryBroadcast = (\<lambda>c d. Inl TypeError),
       FullBroadcast = (\<lambda>c d. Inl TypeError),
       evaluates_to_number = (\<lambda>c. False),
       times_Vector_1 = (\<lambda>c. c),
       simplify_if_constant = (\<lambda>c. c)\<rparr>"
  let ?a = "Symbol Symbol_class ''a'' []
         \<lparr>primary = [''negative electrode''], secondary = [], tertiary = [], quaternary = []\<rparr>"
  let ?b = "Symbol Symbol_class ''b'' []
         \<lparr>primary = [''separator''], secondary = [], tertiary = [], quaternary = []\<rparr>"
  let ?args = "[Some ?a, None, Some ?b]"
  have val: "get_children_domains [?a, ?b]
      = Inr \<lparr>primary = [''negative electrode'', ''separator''],
             secondary = [], tertiary = [], quaternary = []\<rparr>"
    unfolding get_children_domains_Inr_iff disjoint_Cons
    by (simp add: isinstance_Symbol_def domain_def level_compatible_def)
  have "\<exists>r. concatenation ?env ?args = Inr r"
    by (simp add: concatenation_def simplified_concatenation_def Concatenation_init_def val
        isinstance_Variable_def isinstance_Broadcast_def)
  then obtain r where r: "concatenation ?env ?args = Inr r" by blast
  have pre: "2 \<le> length (drop_None ?args) \<and>
    \<not> list_all (\<lambda>child. isinstance_Broadcast child
          \<and> child_of child = child_of (hd (drop_None ?args))) (drop_None ?args)"
    by (simp add: isinstance_Broadcast_def)
  from C9_simplification_idempotent [of ?env ?args r] pre r
  have A: "concatenation ?env (map Some (children r)) = Inr r" by blast
  have "\<exists>n. numpy_concatenation ?env [?a, ?b] = Inr n \<and> isinstance_NumpyConcatenation n
      \<and> children n = [?a, ?b]"
    by (simp add: numpy_concatenation_def simplified_numpy_concatenation_def
        NumpyConcatenation_def Concatenation_init_def isinstance_Symbol_def
        isinstance_NumpyConcatenation_def isinstance_Variable_def)
  then obtain n where n: "numpy_concatenation ?env [?a, ?b] = Inr n"
    and nc: "isinstance_NumpyConcatenation n" and ch: "children n = [?a, ?b]" by blast
  have pre2: "(\<forall>s. isinstance_NumpyConcatenation (simplify_if_constant ?env s)
          \<longrightarrow> simplify_if_constant ?env s = s) \<and>
    (\<forall>c\<in>set (children n). isinstance_Symbol c \<and> \<not> isinstance_NumpyConcatenation c
         \<and> \<not> evaluates_to_number ?env c)"
    unfolding ch by (simp add: isinstance_Symbol_def isinstance_NumpyConcatenation_def)
  from C9_simplification_idempotent [of ?env _ _ "[?a, ?b]" n] pre2 n nc
  have B: "numpy_concatenation ?env (children n) = Inr n" by blast
  from r A n B show ?thesis by blast
qed

text \<open>
  The claim as first stated fails.  With one child, \<open>concatenation\<close> returns the child
  itself, and re-applied to the children of that result (none, for a leaf) it raises
  \<open>ValueError\<close>.  \<open>numpy_concatenation\<close> flattens one level only: on a
  \<open>NumpyConcatenation\<close> that holds another one, the second pass flattens further and
  returns a different node.
\<close>

theorem C9_counterexample:
  "concatenation
      \<lparr>set_iteration = (\<lambda>xs. xs),
       PrimaryBroadcast = (\<lambda>c d. Inl TypeError),
       FullBroadcast = (\<lambda>c d. Inl TypeError),
       evaluates_to_number = (\<lambda>c. False),
       times_Vector_1 = (\<lambda>c. c),
       simplify_if_constant = (\<lambda>c. c)\<rparr>
      [Some (Symbol Symbol_class ''a'' []
         \<lparr>primary = [''negative electrode''], secondary = [], tertiary = [], quaternary = []\<rparr>)]
    = Inr (Symbol Symbol_class ''a'' []
         \<lparr>primary = [''negative electrode''], secondary = [], tertiary = [], quaternary = []\<rparr>)
   \<and> concatenation
      \<lparr>set_iteration = (\<lambda>xs. xs),
       PrimaryBroadcast = (\<lambda>c d. Inl TypeError),
       FullBroadcast = (\<lambda>c d. Inl TypeError),
       evaluates_to_number = (\<lambda>c. False),
       times_Vector_1 = (\<lambda>c. c),
       simplify_if_constant = (\<lambda>c. c)\<rparr>
      (map Some (children (Symbol Symbol_class ''a'' []
         \<lparr>primary = [''negative electrode''], secondary = [], tertiary = [], quaternary = []\<rparr>)))
    = Inl ValueError
   \<and> (\<exists>n. numpy_concatenation
      \<lparr>set_iteration = (\<lambda>xs. xs),
       PrimaryBroadcast = (\<lambda>c d. Inl TypeError),
       FullBroadcast = (\<lambda>c d. Inl TypeError),
       evaluates_to_number = (\<lambda>c. False),
       times_Vector_1 = (\<lambda>c. c),
       simplify_if_constant = (\<lambda>c. c)\<rparr>
      [Symbol NumpyConcatenation_class ''numpy_concatenation''
         [Symbol NumpyConcatenation_class ''numpy_concatenation''
            [Symbol Symbol_class ''a'' []
               \<lparr>primary = [], secondary = [], tertiary = [], quaternary = []\<rparr>,
             Symbol Symbol_class ''b'' []
               \<lparr>primary = [], secondary = [], tertiary = [], quaternary = []\<rparr>]
            \<lparr>primary = [], secondary = [], tertiary = [], quaternary = []\<rparr>]
         \<lparr>primary = [], secondary = [], tertiary = [], quaternary = []\<rparr>]
      = Inr n \<and>
    numpy_concatenation
      \<lparr>set_iteration = (\<lambda>xs. xs),
       PrimaryBroadcast = (\<lambda>c d. Inl TypeError),
       FullBroadcast = (\<lambda>c d. Inl TypeError),
       evaluates_to_number = (\<lambda>c. False),
       times_Vector_1 = (\<lambda>c. c),
       simplify_if_constant = (\<lambda>c. c)\<rparr>
      (children n) \<noteq> Inr n)"
  by (simp add: concatenation_def simplified_concatenation_def
      numpy_concatenation_def simplified_numpy_concatenation_def
      NumpyConcatenation_def Concatenation_init_def isinstance_Symbol_def
      isinstance_NumpyConcatenation_def isinstance_Variable_def)

section \<open>Properties of the evaluation\<close>























end
